theory Spec2Isabelle
  imports
    Complex_Main
    "HOL-Library.Char_ord"
    "HOL-Library.List_Lexorder"
    "HOL-Library.Multiset"
begin

section \<open>The CoinGecko helper of CryptoBuddy (\<open>coin_gecko.py\<close>)\<close>

text \<open>
  The module keeps a process-wide cache (a dict from key to a pair of timestamp and data),
  reads the wall clock, sleeps and talks to an HTTP provider.  The embedding passes the
  cache explicitly, and takes the clock and the provider as oracles: the \<open>n\<close>-th reading of
  \<open>time.time()\<close> and the outcome of the \<open>n\<close>-th call of \<open>requests.get\<close>.  Every request
  sent and every sleep is logged in the state, so that statements about the number of
  network calls and the backoff delays are statements about the returned state.

  Conventions of the model.
  \<^item> Python strings are \<open>string\<close>s; one \<open>char\<close> stands for one code point below 256.
    The whitespace set is that of \<open>str.isspace\<close> on these code points; the case mappings
    are those of ASCII (the letters of the inputs are taken to be ASCII).
  \<^item> Times, delays and JSON numbers are \<open>real\<close>s: floating-point rounding is not modelled.
  \<^item> A decoded JSON body is a value of \<open>json\<close>; a Python dict is an association list in
    insertion order, read with \<open>map_of\<close>.
  \<^item> A Python exception is a value \<open>Inl err\<close> of the result.
  \<^item> A \<open>requests.RequestException\<close> (connection error, timeout, HTTP error status raised by
    \<open>raise_for_status\<close>, undecodable body) is the outcome \<open>Failure msg\<close> with \<open>msg = str(e)\<close>.
\<close>

subsection \<open>Python values and the operations the module applies to them\<close>

datatype json =
    JNull
  | JBool bool
  | JNum real
  | JStr string
  | JList "json list"
  | JObj "(string \<times> json) list"

datatype py_error = TypeError | AttributeError | KeyError

text \<open>Truth value of an object, as \<open>if x\<close> and \<open>not x\<close> test it.\<close>

fun truthy :: "json \<Rightarrow> bool" where
  "truthy JNull = False"
| "truthy (JBool b) = b"
| "truthy (JNum x) = (x \<noteq> 0)"
| "truthy (JStr s) = (s \<noteq> [])"
| "truthy (JList xs) = (xs \<noteq> [])"
| "truthy (JObj kvs) = (kvs \<noteq> [])"

text \<open>\<open>needle in hay\<close> for two strings: substring test.\<close>

fun contains_sub :: "string \<Rightarrow> string \<Rightarrow> bool" where
  "contains_sub p [] = (p = [])"
| "contains_sub p (c # cs) = (take (length p) (c # cs) = p \<or> contains_sub p cs)"

text \<open>\<open>k in x\<close> for a string \<open>k\<close>: key of a dict, element of a list, substring of a string;
  the other values are not containers and raise \<open>TypeError\<close>.\<close>

fun py_in :: "string \<Rightarrow> json \<Rightarrow> py_error + bool" where
  "py_in k (JObj kvs) = Inr (k \<in> set (map fst kvs))"
| "py_in k (JList xs) = Inr (JStr k \<in> set xs)"
| "py_in k (JStr s) = Inr (contains_sub k s)"
| "py_in k JNull = Inl TypeError"
| "py_in k (JBool b) = Inl TypeError"
| "py_in k (JNum x) = Inl TypeError"

text \<open>\<open>x.get(k, dflt)\<close>: only a dict has the method.\<close>

fun py_get :: "json \<Rightarrow> string \<Rightarrow> json \<Rightarrow> py_error + json" where
  "py_get (JObj kvs) k dflt = Inr (case map_of kvs k of None \<Rightarrow> dflt | Some v \<Rightarrow> v)"
| "py_get JNull k dflt = Inl AttributeError"
| "py_get (JBool b) k dflt = Inl AttributeError"
| "py_get (JNum x) k dflt = Inl AttributeError"
| "py_get (JStr s) k dflt = Inl AttributeError"
| "py_get (JList xs) k dflt = Inl AttributeError"

text \<open>\<open>x[k]\<close> for a string \<open>k\<close>: a missing key raises \<open>KeyError\<close>, a list or a string indexed
  by a string and a value that is not subscriptable raise \<open>TypeError\<close>.\<close>

fun py_index :: "json \<Rightarrow> string \<Rightarrow> py_error + json" where
  "py_index (JObj kvs) k = (case map_of kvs k of None \<Rightarrow> Inl KeyError | Some v \<Rightarrow> Inr v)"
| "py_index JNull k = Inl TypeError"
| "py_index (JBool b) k = Inl TypeError"
| "py_index (JNum x) k = Inl TypeError"
| "py_index (JStr s) k = Inl TypeError"
| "py_index (JList xs) k = Inl TypeError"

text \<open>The prefix slice \<open>xs[:n]\<close> of a sequence; a negative \<open>n\<close> counts from the end.\<close>

definition slice_to :: "int \<Rightarrow> 'a list \<Rightarrow> 'a list" where
  "slice_to n xs = (if 0 \<le> n then take (nat n) xs else take (length xs - nat (- n)) xs)"

text \<open>\<open>x[:n]\<close>: strings and lists are sliced, every other value raises (a dict raises
  \<open>TypeError\<close> for the unhashable slice; from Python 3.12 on, where a slice is hashable, it
  raises \<open>KeyError\<close> instead, which no statement below tells apart).\<close>

fun py_slice :: "json \<Rightarrow> int \<Rightarrow> py_error + json" where
  "py_slice (JStr s) n = Inr (JStr (slice_to n s))"
| "py_slice (JList xs) n = Inr (JList (slice_to n xs))"
| "py_slice JNull n = Inl TypeError"
| "py_slice (JBool b) n = Inl TypeError"
| "py_slice (JNum x) n = Inl TypeError"
| "py_slice (JObj kvs) n = Inl TypeError"

text \<open>\<open>len(x)\<close> where it is defined.\<close>

fun py_len :: "json \<Rightarrow> nat option" where
  "py_len (JStr s) = Some (length s)"
| "py_len (JList xs) = Some (length xs)"
| "py_len (JObj kvs) = Some (length kvs)"
| "py_len JNull = None"
| "py_len (JBool b) = None"
| "py_len (JNum x) = None"

text \<open>\<open>d[k] = v\<close> on a dict: an existing key keeps its place, a new key goes last.\<close>

fun dict_set :: "('k \<times> 'v) list \<Rightarrow> 'k \<Rightarrow> 'v \<Rightarrow> ('k \<times> 'v) list" where
  "dict_set [] k v = [(k, v)]"
| "dict_set ((k', v') # kvs) k v =
     (if k' = k then (k, v) # kvs else (k', v') # dict_set kvs k v)"

text \<open>Running a fallible computation over a list, left to right, stopping at the first
  exception.\<close>

fun collect :: "('a \<Rightarrow> py_error + 'b) \<Rightarrow> 'a list \<Rightarrow> py_error + 'b list" where
  "collect f [] = Inr []"
| "collect f (x # xs) =
     (case f x of
        Inl err \<Rightarrow> Inl err
      | Inr y \<Rightarrow> (case collect f xs of Inl err \<Rightarrow> Inl err | Inr ys \<Rightarrow> Inr (y # ys)))"

subsection \<open>String methods\<close>

definition lower_letters :: string where
  "lower_letters = ''abcdefghijklmnopqrstuvwxyz''"

definition upper_letters :: string where
  "upper_letters = ''ABCDEFGHIJKLMNOPQRSTUVWXYZ''"

definition to_upper :: "char \<Rightarrow> char" where
  "to_upper c = (case map_of (zip lower_letters upper_letters) c of None \<Rightarrow> c | Some u \<Rightarrow> u)"

definition to_lower :: "char \<Rightarrow> char" where
  "to_lower c = (case map_of (zip upper_letters lower_letters) c of None \<Rightarrow> c | Some l \<Rightarrow> l)"

definition upper :: "string \<Rightarrow> string" where
  "upper s = map to_upper s"

definition lower :: "string \<Rightarrow> string" where
  "lower s = map to_lower s"

text \<open>The code points below 256 for which \<open>str.isspace\<close> holds, which are the ones that
  \<open>str.strip()\<close> removes: tab, line feed, vertical tab, form feed, carriage return, the four
  separators \<open>0x1C\<close> to \<open>0x1F\<close>, the space, the next-line control \<open>0x85\<close> and the
  no-break space \<open>0xA0\<close>.\<close>

definition is_space :: "char \<Rightarrow> bool" where
  "is_space c \<longleftrightarrow>
     c \<in> set [CHR 0x09, CHR 0x0A, CHR 0x0B, CHR 0x0C, CHR 0x0D,
              CHR 0x1C, CHR 0x1D, CHR 0x1E, CHR 0x1F, CHR 0x20, CHR 0x85, CHR 0xA0]"

definition strip :: "string \<Rightarrow> string" where
  "strip s = rev (dropWhile is_space (rev (dropWhile is_space s)))"

text \<open>\<open>sep.join(xs)\<close>.\<close>

fun join :: "string \<Rightarrow> string list \<Rightarrow> string" where
  "join sep [] = []"
| "join sep [x] = x"
| "join sep (x # y # ys) = x @ sep @ join sep (y # ys)"

text \<open>\<open>s.split(c)\<close> for a one-character separator: the pieces between the occurrences of
  \<open>c\<close>, empty pieces included; the result is never empty.\<close>

fun split_on :: "char \<Rightarrow> string \<Rightarrow> string list" where
  "split_on c [] = [[]]"
| "split_on c (x # xs) =
     (if x = c then [] # split_on c xs
      else (case split_on c xs of p # ps \<Rightarrow> (x # p) # ps | [] \<Rightarrow> [[x]]))"

text \<open>\<open>str(n)\<close> for an integer.\<close>

definition digit_char :: "nat \<Rightarrow> char" where
  "digit_char d = ''0123456789'' ! d"

fun str_nat :: "nat \<Rightarrow> string" where
  "str_nat n = (if n < 10 then [digit_char n] else str_nat (n div 10) @ [digit_char (n mod 10)])"

definition str_int :: "int \<Rightarrow> string" where
  "str_int i = (if i < 0 then CHR ''-'' # str_nat (nat (- i)) else str_nat (nat i))"

subsection \<open>Module constants\<close>

definition COINGECKO_BASE :: string where
  "COINGECKO_BASE = ''https://api.coingecko.com/api/v3''"

definition SYMBOL_TO_ID :: "(string \<times> string) list" where
  "SYMBOL_TO_ID =
     [(''BTC'', ''bitcoin''),
      (''ETH'', ''ethereum''),
      (''ADA'', ''cardano''),
      (''DOT'', ''polkadot''),
      (''BNB'', ''binancecoin''),
      (''XRP'', ''ripple''),
      (''SOL'', ''solana''),
      (''LTC'', ''litecoin''),
      (''DOGE'', ''dogecoin''),
      (''AVAX'', ''avalanche-2''),
      (''LINK'', ''chainlink''),
      (''MATIC'', ''matic-network''),
      (''ATOM'', ''cosmos''),
      (''TRX'', ''tron'')]"

definition DEFAULT_TTL :: int where
  "DEFAULT_TTL = 30"

subsection \<open>The world: clock, provider, cache, and the log of effects\<close>

datatype http_outcome = Failure string | Response json

record env =
  clock :: "nat \<Rightarrow> real"
  net :: "nat \<Rightarrow> http_outcome"

record request =
  req_url :: string
  req_params :: "(string \<times> json) list"

record state =
  cache :: "string \<rightharpoonup> real \<times> json"
  ticks :: nat
  sent :: "request list"
  slept :: "real list"

text \<open>\<open>_now\<close>: the next reading of the clock.\<close>

definition now :: "env \<Rightarrow> state \<Rightarrow> real \<times> state" where
  "now e s = (clock e (ticks s), s\<lparr>ticks := Suc (ticks s)\<rparr>)"

text \<open>\<open>_cache_get\<close>.  A stored record is a pair, hence never falsy: \<open>not rec\<close> holds exactly
  when the key is missing, and the clock is read only when it is present.  The result
  \<open>JNull\<close> is Python's \<open>None\<close>.\<close>

definition cache_get :: "env \<Rightarrow> string \<Rightarrow> int \<Rightarrow> state \<Rightarrow> json \<times> state" where
  "cache_get e key ttl s =
     (case cache s key of
        None \<Rightarrow> (JNull, s)
      | Some (ts, data) \<Rightarrow>
          (case now e s of
             (t, s1) \<Rightarrow>
               if t - ts > real_of_int ttl
               then (JNull, s1\<lparr>cache := (cache s1)(key := None)\<rparr>)
               else (data, s1)))"

text \<open>\<open>_cache_set\<close>.\<close>

definition cache_set :: "env \<Rightarrow> string \<Rightarrow> json \<Rightarrow> state \<Rightarrow> state" where
  "cache_set e key v s =
     (case now e s of (t, s1) \<Rightarrow> s1\<lparr>cache := (cache s1)(key \<mapsto> (t, v))\<rparr>)"

text \<open>\<open>_request\<close>: the loop \<open>for attempt in range(retries + 1)\<close>, from \<open>attempt\<close> on.  Each
  pass sends one request; the outcome of the request is the provider's next outcome.
  Leaving the loop without a pass that returned gives \<open>None\<close>.  The delay passed to
  \<open>time.sleep\<close> is logged; \<open>time.sleep\<close> accepts it when it is not negative, which is the
  case for the \<open>backoff\<close> of \<open>0.8\<close> that every caller in the module uses.\<close>

function request_loop ::
  "env \<Rightarrow> string \<Rightarrow> (string \<times> json) list \<Rightarrow> int \<Rightarrow> real \<Rightarrow> int \<Rightarrow> state \<Rightarrow> json \<times> state"
where
  "request_loop e url params retries backoff attempt s =
     (if retries + 1 \<le> attempt then (JNull, s)
      else
        (let s1 = s\<lparr>sent := sent s @ [\<lparr>req_url = url, req_params = params\<rparr>]\<rparr>
         in case net e (length (sent s)) of
              Response body \<Rightarrow> (body, s1)
            | Failure msg \<Rightarrow>
                if attempt = retries then (JObj [(''error'', JStr msg)], s1)
                else request_loop e url params retries backoff (attempt + 1)
                       (s1\<lparr>slept := slept s1 @ [backoff * real_of_int (attempt + 1)]\<rparr>)))"
  by pat_completeness auto
termination
  by (relation "measure (\<lambda>(e, url, params, retries, backoff, attempt, s). nat (retries + 1 - attempt))")
     auto

declare request_loop.simps [simp del]

definition request ::
  "env \<Rightarrow> string \<Rightarrow> (string \<times> json) list \<Rightarrow> int \<Rightarrow> real \<Rightarrow> state \<Rightarrow> json \<times> state"
where
  "request e path params retries backoff s =
     request_loop e (COINGECKO_BASE @ path) params retries backoff 0 s"

text \<open>The defaults \<open>retries = 2\<close> and \<open>backoff = 0.8\<close>, which every caller in the module
  uses.\<close>

definition request_default :: "env \<Rightarrow> string \<Rightarrow> (string \<times> json) list \<Rightarrow> state \<Rightarrow> json \<times> state" where
  "request_default e path params s = request e path params 2 (8 / 10) s"

subsection \<open>\<open>symbol_to_id\<close>\<close>

definition symbol_to_id :: "string \<Rightarrow> string option" where
  "symbol_to_id symbol_or_id =
     (if symbol_or_id = [] then None
      else
        (let s = upper (strip symbol_or_id)
         in case map_of SYMBOL_TO_ID s of
              Some coin_id \<Rightarrow> Some coin_id
            | None \<Rightarrow>
                (let candidate = lower (strip symbol_or_id)
                 in if candidate \<in> set (map snd SYMBOL_TO_ID) then Some candidate else None)))"

subsection \<open>\<open>get_simple_price\<close> and \<open>bulk_prices\<close>\<close>

text \<open>The first argument is a string or a list of strings.\<close>

datatype symbols_arg = OneString string | SymbolList "string list"

text \<open>The comprehension \<open>[s.strip() for s in symbols.split(",") if s.strip()]\<close>.\<close>

definition split_symbols :: "string \<Rightarrow> string list" where
  "split_symbols str = [strip p. p \<leftarrow> split_on CHR '','' str, strip p \<noteq> []]"

definition symbols_list_of :: "symbols_arg \<Rightarrow> string list" where
  "symbols_list_of symbols =
     (case symbols of OneString str \<Rightarrow> split_symbols str | SymbolList l \<Rightarrow> l)"

text \<open>The loop that fills \<open>ids\<close> and \<open>mapping\<close>; \<open>if coin_id\<close> is false for \<open>None\<close> and for
  the empty string.\<close>

fun resolve_loop ::
  "string list \<Rightarrow> string list \<Rightarrow> (string \<times> string option) list
     \<Rightarrow> string list \<times> (string \<times> string option) list"
where
  "resolve_loop [] ids mapping = (ids, mapping)"
| "resolve_loop (symb # rest) ids mapping =
     (let coin_id = symbol_to_id symb;
          mapping' = dict_set mapping (upper symb) coin_id
      in resolve_loop rest
           (case coin_id of
              None \<Rightarrow> ids
            | Some cid \<Rightarrow> if cid \<noteq> [] then ids @ [cid] else ids)
           mapping')"

text \<open>The key \<open>f"simple_price:{','.join(sorted(ids))}:{vs_currency}"\<close>; \<open>sorted\<close> orders
  strings lexicographically by code point, as the order on \<open>string\<close> does.\<close>

definition simple_price_key :: "string list \<Rightarrow> string \<Rightarrow> string" where
  "simple_price_key ids vs_currency =
     ''simple_price:'' @ join '','' (sort ids) @ '':'' @ vs_currency"

text \<open>A dict built by successive assignments.\<close>

definition dict_of :: "('k \<times> 'v) list \<Rightarrow> ('k \<times> 'v) list" where
  "dict_of kvs = foldl (\<lambda>d (k, v). dict_set d k v) [] kvs"

text \<open>\<open>{sym: None for sym in mapping}\<close>.\<close>

definition all_none :: "(string \<times> string option) list \<Rightarrow> (string \<times> json) list" where
  "all_none mapping = dict_of (map (\<lambda>symb. (symb, JNull)) (map fst mapping))"

text \<open>The value of one entry on the cached path:
  \<open>cached.get(mapping[sym.upper()], {}).get(vs_currency) if mapping[sym.upper()] else None\<close>.\<close>

definition cached_price ::
  "(string \<times> string option) list \<Rightarrow> json \<Rightarrow> string \<Rightarrow> string \<Rightarrow> py_error + json"
where
  "cached_price mapping cached vs_currency symb =
     (case map_of mapping (upper symb) of
        None \<Rightarrow> Inl KeyError
      | Some coin_id \<Rightarrow>
          (case coin_id of
             None \<Rightarrow> Inr JNull
           | Some cid \<Rightarrow>
               if cid = [] then Inr JNull
               else
                 (case py_get cached cid (JObj []) of
                    Inl err \<Rightarrow> Inl err
                  | Inr inner \<Rightarrow> py_get inner vs_currency JNull)))"

definition serve_cached ::
  "(string \<times> string option) list \<Rightarrow> json \<Rightarrow> string \<Rightarrow> py_error + (string \<times> json) list"
where
  "serve_cached mapping cached vs_currency =
     (case collect
             (\<lambda>symb. case cached_price mapping cached vs_currency symb of
                      Inl err \<Rightarrow> Inl err
                    | Inr v \<Rightarrow> Inr (symb, v))
             (map fst mapping) of
        Inl err \<Rightarrow> Inl err
      | Inr kvs \<Rightarrow> Inr (dict_of kvs))"

text \<open>The test \<open>not data or "error" in data\<close>.\<close>

definition request_failed :: "json \<Rightarrow> py_error + bool" where
  "request_failed data = (if \<not> truthy data then Inr True else py_in ''error'' data)"

text \<open>The value of one entry on the fetch path: the test
  \<open>cid and data.get(cid) and vs_currency in data[cid]\<close>, then \<open>data[cid][vs_currency]\<close>.\<close>

definition fresh_price :: "json \<Rightarrow> string \<Rightarrow> string option \<Rightarrow> py_error + json" where
  "fresh_price data vs_currency coin_id =
     (case coin_id of
        None \<Rightarrow> Inr JNull
      | Some cid \<Rightarrow>
          if cid = [] then Inr JNull
          else
            (case py_get data cid JNull of
               Inl err \<Rightarrow> Inl err
             | Inr got \<Rightarrow>
                 if \<not> truthy got then Inr JNull
                 else
                   (case py_index data cid of
                      Inl err \<Rightarrow> Inl err
                    | Inr entry \<Rightarrow>
                        (case py_in vs_currency entry of
                           Inl err \<Rightarrow> Inl err
                         | Inr present \<Rightarrow>
                             if present then
                               (case py_index data cid of
                                  Inl err \<Rightarrow> Inl err
                                | Inr entry' \<Rightarrow> py_index entry' vs_currency)
                             else Inr JNull))))"

text \<open>The loop \<open>for sym, cid in mapping.items()\<close> that fills \<open>result\<close>.\<close>

fun project_loop ::
  "(string \<times> string option) list \<Rightarrow> json \<Rightarrow> string \<Rightarrow> (string \<times> json) list
     \<Rightarrow> py_error + (string \<times> json) list"
where
  "project_loop [] data vs_currency result = Inr result"
| "project_loop ((symb, cid) # rest) data vs_currency result =
     (case fresh_price data vs_currency cid of
        Inl err \<Rightarrow> Inl err
      | Inr v \<Rightarrow> project_loop rest data vs_currency (dict_set result symb v))"

definition simple_price_params :: "string list \<Rightarrow> string \<Rightarrow> (string \<times> json) list" where
  "simple_price_params ids vs_currency =
     [(''ids'', JStr (join '','' ids)), (''vs_currencies'', JStr vs_currency)]"

definition get_simple_price ::
  "env \<Rightarrow> symbols_arg \<Rightarrow> string \<Rightarrow> int \<Rightarrow> state \<Rightarrow> (py_error + (string \<times> json) list) \<times> state"
where
  "get_simple_price e symbols vs_currency ttl s =
     (case resolve_loop (symbols_list_of symbols) [] [] of
        (ids, mapping) \<Rightarrow>
          (let cache_key = simple_price_key ids vs_currency
           in case cache_get e cache_key ttl s of
                (cached, s1) \<Rightarrow>
                  if cached \<noteq> JNull then (serve_cached mapping cached vs_currency, s1)
                  else if ids = [] then (Inr (all_none mapping), s1)
                  else
                    (case request_default e ''/simple/price''
                            (simple_price_params ids vs_currency) s1 of
                       (data, s2) \<Rightarrow>
                         (case request_failed data of
                            Inl err \<Rightarrow> (Inl err, s2)
                          | Inr failed \<Rightarrow>
                              if failed then (Inr (all_none mapping), s2)
                              else (project_loop mapping data vs_currency [],
                                    cache_set e cache_key data s2)))))"


subsection \<open>\<open>get_market_data\<close>, \<open>get_coin_info\<close>, \<open>search_coin\<close>\<close>

text \<open>\<open>{"error": data.get("error") if isinstance(data, dict) else "request failed"}\<close>.\<close>

definition error_marker :: "json \<Rightarrow> json" where
  "error_marker data =
     JObj [(''error'',
            (case data of
               JObj kvs \<Rightarrow> (case map_of kvs ''error'' of None \<Rightarrow> JNull | Some v \<Rightarrow> v)
             | _ \<Rightarrow> JStr ''request failed''))]"

text \<open>A dict literal \<open>{k: record.get(k), ...}\<close> over distinct keys.\<close>

definition get_fields :: "json \<Rightarrow> string list \<Rightarrow> py_error + (string \<times> json) list" where
  "get_fields record ks =
     collect (\<lambda>k. case py_get record k JNull of Inl err \<Rightarrow> Inl err | Inr v \<Rightarrow> Inr (k, v)) ks"

definition market_fields :: "string list" where
  "market_fields =
     [''id'', ''symbol'', ''name'', ''current_price'', ''market_cap'',
      ''price_change_percentage_24h'', ''total_volume'']"

definition market_params :: "string \<Rightarrow> string \<Rightarrow> (string \<times> json) list" where
  "market_params coin_id vs_currency =
     [(''vs_currency'', JStr vs_currency), (''ids'', JStr coin_id),
      (''order'', JStr ''market_cap_desc''), (''per_page'', JNum 1), (''page'', JNum 1),
      (''sparkline'', JBool False)]"

text \<open>The cache keys \<open>f"market_data:{coin_id}:{vs_currency}"\<close>, \<open>f"coin_info:{coin_id}"\<close> and
  \<open>f"search:{query.lower()}:{limit}"\<close>.\<close>

definition market_data_key :: "string \<Rightarrow> string \<Rightarrow> string" where
  "market_data_key coin_id vs_currency = ''market_data:'' @ coin_id @ '':'' @ vs_currency"

definition coin_info_key :: "string \<Rightarrow> string" where
  "coin_info_key coin_id = ''coin_info:'' @ coin_id"

definition search_key :: "string \<Rightarrow> int \<Rightarrow> string" where
  "search_key query limit = ''search:'' @ lower query @ '':'' @ str_int limit"

definition get_market_data ::
  "env \<Rightarrow> string \<Rightarrow> string \<Rightarrow> int \<Rightarrow> state \<Rightarrow> (py_error + json) \<times> state"
where
  "get_market_data e symbol vs_currency ttl s =
     (case symbol_to_id symbol of
        None \<Rightarrow> (Inr (JObj [(''error'', JStr ''unknown symbol or id mapping not available'')]), s)
      | Some coin_id \<Rightarrow>
          if coin_id = []
          then (Inr (JObj [(''error'', JStr ''unknown symbol or id mapping not available'')]), s)
          else
            (let cache_key = market_data_key coin_id vs_currency
             in case cache_get e cache_key ttl s of
                  (cached, s1) \<Rightarrow>
                    if truthy cached then (Inr cached, s1)
                    else
                      (case request_default e ''/coins/markets''
                              (market_params coin_id vs_currency) s1 of
                         (data, s2) \<Rightarrow>
                           (case request_failed data of
                              Inl err \<Rightarrow> (Inl err, s2)
                            | Inr failed \<Rightarrow>
                                if failed then (Inr (error_marker data), s2)
                                else
                                  (case data of
                                     JList (record # others) \<Rightarrow>
                                       (case get_fields record market_fields of
                                          Inl err \<Rightarrow> (Inl err, s2)
                                        | Inr out \<Rightarrow>
                                            (Inr (JObj out), cache_set e cache_key (JObj out) s2))
                                   | _ \<Rightarrow>
                                       (Inr (JObj [(''error'', JStr ''no data returned'')]), s2))))))"

text \<open>\<open>(data.get(outer) or {}).get(inner, dflt)[:n]\<close>.\<close>

definition nested_slice :: "json \<Rightarrow> string \<Rightarrow> string \<Rightarrow> json \<Rightarrow> int \<Rightarrow> py_error + json" where
  "nested_slice data outer inner dflt n =
     (case py_get data outer JNull of
        Inl err \<Rightarrow> Inl err
      | Inr got \<Rightarrow>
          (case py_get (if truthy got then got else JObj []) inner dflt of
             Inl err \<Rightarrow> Inl err
           | Inr v \<Rightarrow> py_slice v n))"

text \<open>The path \<open>f"/coins/{coin_id}"\<close>.\<close>

definition coin_info_path :: "string \<Rightarrow> string" where
  "coin_info_path coin_id = ''/coins/'' @ coin_id"

definition coin_info_params :: "(string \<times> json) list" where
  "coin_info_params =
     [(''localization'', JStr ''false''), (''tickers'', JStr ''false''),
      (''market_data'', JStr ''false''), (''community_data'', JStr ''false''),
      (''developer_data'', JStr ''false''), (''sparkline'', JStr ''false'')]"

text \<open>The dict literal \<open>out\<close> of \<open>get_coin_info\<close>, its items evaluated in order.\<close>

definition coin_info_record :: "json \<Rightarrow> py_error + json" where
  "coin_info_record data =
     (case get_fields data [''id'', ''symbol'', ''name''] of
        Inl err \<Rightarrow> Inl err
      | Inr basic \<Rightarrow>
          (case nested_slice data ''description'' ''en'' (JStr []) 800 of
             Inl err \<Rightarrow> Inl err
           | Inr description \<Rightarrow>
               (case nested_slice data ''links'' ''homepage'' (JList []) 3 of
                  Inl err \<Rightarrow> Inl err
                | Inr homepage \<Rightarrow>
                    Inr (JObj (basic @ [(''description'', description), (''homepage'', homepage)])))))"

definition get_coin_info :: "env \<Rightarrow> string \<Rightarrow> int \<Rightarrow> state \<Rightarrow> (py_error + json) \<times> state" where
  "get_coin_info e symbol ttl s =
     (case symbol_to_id symbol of
        None \<Rightarrow> (Inr (JObj [(''error'', JStr ''unknown symbol'')]), s)
      | Some coin_id \<Rightarrow>
          if coin_id = [] then (Inr (JObj [(''error'', JStr ''unknown symbol'')]), s)
          else
            (let cache_key = coin_info_key coin_id
             in case cache_get e cache_key ttl s of
                  (cached, s1) \<Rightarrow>
                    if truthy cached then (Inr cached, s1)
                    else
                      (case request_default e (coin_info_path coin_id) coin_info_params s1 of
                         (data, s2) \<Rightarrow>
                           (case request_failed data of
                              Inl err \<Rightarrow> (Inl err, s2)
                            | Inr failed \<Rightarrow>
                                if failed then (Inr (error_marker data), s2)
                                else
                                  (case coin_info_record data of
                                     Inl err \<Rightarrow> (Inl err, s2)
                                   | Inr out \<Rightarrow> (Inr out, cache_set e cache_key out s2))))))"

definition search_coin :: "env \<Rightarrow> string \<Rightarrow> int \<Rightarrow> state \<Rightarrow> (py_error + json) \<times> state" where
  "search_coin e query limit s =
     (if query = [] then (Inr (JObj [(''error'', JStr ''empty query'')]), s)
      else
        (let cache_key = search_key query limit
         in case cache_get e cache_key DEFAULT_TTL s of
              (cached, s1) \<Rightarrow>
                if truthy cached then (Inr cached, s1)
                else
                  (case request_default e ''/search'' [(''query'', JStr query)] s1 of
                     (data, s2) \<Rightarrow>
                       (case request_failed data of
                          Inl err \<Rightarrow> (Inl err, s2)
                        | Inr failed \<Rightarrow>
                            if failed then (Inr (error_marker data), s2)
                            else
                              (case py_get data ''coins'' (JList []) of
                                 Inl err \<Rightarrow> (Inl err, s2)
                               | Inr found \<Rightarrow>
                                   (case py_slice found limit of
                                      Inl err \<Rightarrow> (Inl err, s2)
                                    | Inr coins \<Rightarrow>
                                        (let result = JObj [(''coins'', coins)]
                                         in (Inr result, cache_set e cache_key result s2))))))))"

subsection \<open>Names for the parts of a call of \<open>get_simple_price\<close>\<close>

text \<open>The list \<open>ids\<close>, the dict \<open>mapping\<close> and the string \<open>cache_key\<close> that a call computes
  from its arguments, and the request it sends on a cache miss.\<close>

definition requested_ids :: "symbols_arg \<Rightarrow> string list" where
  "requested_ids symbols = fst (resolve_loop (symbols_list_of symbols) [] [])"

definition requested_map :: "symbols_arg \<Rightarrow> (string \<times> string option) list" where
  "requested_map symbols = snd (resolve_loop (symbols_list_of symbols) [] [])"

definition price_cache_key :: "symbols_arg \<Rightarrow> string \<Rightarrow> string" where
  "price_cache_key symbols vs_currency = simple_price_key (requested_ids symbols) vs_currency"

definition price_request :: "symbols_arg \<Rightarrow> string \<Rightarrow> request" where
  "price_request symbols vs_currency =
     \<lparr>req_url = COINGECKO_BASE @ ''/simple/price'',
      req_params = simple_price_params (requested_ids symbols) vs_currency\<rparr>"

text \<open>The test of \<open>_cache_get\<close> on the entry under a key, at the next reading of the clock:
  the entry exists and \<open>now - ts > ttl\<close> is false.\<close>

definition entry_valid :: "env \<Rightarrow> state \<Rightarrow> string \<Rightarrow> int \<Rightarrow> bool" where
  "entry_valid e s key ttl =
     (case cache s key of
        None \<Rightarrow> False
      | Some (ts, data) \<Rightarrow> clock e (ticks s) - ts \<le> real_of_int ttl)"

text \<open>The identifiers that one symbol contributes to \<open>ids\<close>: the resolved identifier, if
  \<open>if coin_id\<close> holds.\<close>

definition ids_of :: "string \<Rightarrow> string list" where
  "ids_of x =
     (case symbol_to_id x of None \<Rightarrow> [] | Some cid \<Rightarrow> if cid \<noteq> [] then [cid] else [])"

subsection \<open>Sample worlds\<close>

text \<open>A state with an empty cache and empty logs; a clock that advances one second per
  reading; a provider that fails every request, and one that answers every request with a
  fixed body.\<close>

definition fresh_state :: state where
  "fresh_state = \<lparr>cache = Map.empty, ticks = 0, sent = [], slept = []\<rparr>"

definition second_clock :: "nat \<Rightarrow> real" where
  "second_clock n = 1000 + real n"

definition provider_down :: env where
  "provider_down = \<lparr>clock = second_clock, net = (\<lambda>n. Failure ''connection timed out'')\<rparr>"

definition provider_answers :: "json \<Rightarrow> env" where
  "provider_answers body = \<lparr>clock = second_clock, net = (\<lambda>n. Response body)\<rparr>"

text \<open>A state whose cache holds one entry, stored at time \<open>ts\<close>; and a sample body of the
  batch price endpoint.\<close>

definition state_with_entry :: "string \<Rightarrow> real \<Rightarrow> json \<Rightarrow> state" where
  "state_with_entry key ts data = fresh_state\<lparr>cache := [key \<mapsto> (ts, data)]\<rparr>"

definition btc_quote :: json where
  "btc_quote = JObj [(''bitcoin'', JObj [(''usd'', JNum 50000)])]"

subsection \<open>Invariants of the cache\<close>

text \<open>Every stored value is truthy: the four operations store only a response that passed
  the test \<open>not data\<close>, or a non-empty dict they built.\<close>

definition stored_truthy :: "state \<Rightarrow> bool" where
  "stored_truthy s \<longleftrightarrow> (\<forall>key ts data. cache s key = Some (ts, data) \<longrightarrow> truthy data)"

subsection \<open>Outcomes that the operations treat as a failed fetch\<close>



subsection \<open>The effect of an operation on the cache\<close>

text \<open>The cache \<open>c'\<close> comes from the cache \<open>c\<close> by at most the removal of the entry under
  \<open>key\<close> and at most one store, under \<open>key\<close>, of a value that satisfies \<open>P\<close>.\<close>

definition cache_step ::
  "(string \<rightharpoonup> real \<times> json) \<Rightarrow> string \<Rightarrow> (json \<Rightarrow> bool) \<Rightarrow> (string \<rightharpoonup> real \<times> json) \<Rightarrow> bool"
where
  "cache_step c key P c' \<longleftrightarrow>
     c' = c \<or> c' = c(key := None) \<or> (\<exists>t v. P v \<and> c' = c(key \<mapsto> (t, v)))"

subsection \<open>The record of \<open>get_coin_info\<close>\<close>

text \<open>The length of the field \<open>k\<close> of a dict, where the dict has the field and the field has
  a length.\<close>

definition field_len :: "json \<Rightarrow> string \<Rightarrow> nat option" where
  "field_len r k =
     (case r of
        JObj kvs \<Rightarrow> (case map_of kvs k of None \<Rightarrow> None | Some v \<Rightarrow> py_len v)
      | _ \<Rightarrow> None)"

text \<open>A record with a description of at most 800 characters and at most 3 homepage
  links.\<close>

definition bounded_info :: "json \<Rightarrow> bool" where
  "bounded_info r \<longleftrightarrow>
     (case field_len r ''description'' of None \<Rightarrow> False | Some n \<Rightarrow> n \<le> 800) \<and>
     (case field_len r ''homepage'' of None \<Rightarrow> False | Some n \<Rightarrow> n \<le> 3)"

text \<open>An error marker: a dict whose only key is \<open>"error"\<close>.\<close>

definition is_error_marker :: "json \<Rightarrow> bool" where
  "is_error_marker r \<longleftrightarrow> (case r of JObj kvs \<Rightarrow> map fst kvs = [''error''] | _ \<Rightarrow> False)"

text \<open>Every value stored under a key of \<open>get_coin_info\<close> is such a bounded record.\<close>

definition coin_info_cache_bounded :: "state \<Rightarrow> bool" where
  "coin_info_cache_bounded s \<longleftrightarrow>
     (\<forall>coin_id ts data. cache s (coin_info_key coin_id) = Some (ts, data) \<longrightarrow> bounded_info data)"

text \<open>A body of the coin endpoint with a description of 1000 characters and five homepage
  links.\<close>

definition long_info :: json where
  "long_info =
     JObj [(''id'', JStr ''bitcoin''), (''symbol'', JStr ''btc''), (''name'', JStr ''Bitcoin''),
           (''description'', JObj [(''en'', JStr (replicate 1000 CHR ''a''))]),
           (''links'',
            JObj [(''homepage'',
                   JList [JStr ''u1'', JStr ''u2'', JStr ''u3'', JStr ''u4'', JStr ''u5''])])]"

subsection \<open>Bodies of the documented shapes\<close>










section \<open>Properties\<close>

subsection \<open>Evaluation of the string methods\<close>

lemmas string_defs =
  upper_def lower_def to_upper_def to_lower_def lower_letters_def upper_letters_def
  strip_def is_space_def

subsection \<open>Dicts as association lists\<close>

lemma map_of_dict_set: "map_of (dict_set d k v) = (map_of d)(k \<mapsto> v)"
  by (induction d k v rule: dict_set.induct) (auto simp: fun_eq_iff)

lemma keys_dict_set: "fst ` set (dict_set d k v) = insert k (fst ` set d)"
  by (induction d k v rule: dict_set.induct) auto

lemma distinct_dict_set: "distinct (map fst d) \<Longrightarrow> distinct (map fst (dict_set d k v))"
  by (induction d k v rule: dict_set.induct) (auto simp: keys_dict_set)

lemma dict_set_fresh: "k \<notin> fst ` set d \<Longrightarrow> dict_set d k v = d @ [(k, v)]"
  by (induction d k v rule: dict_set.induct) auto

lemma foldl_dict_set_distinct:
  "distinct (map fst (d @ kvs)) \<Longrightarrow> foldl (\<lambda>d (k, v). dict_set d k v) d kvs = d @ kvs"
proof (induction kvs arbitrary: d)
  case Nil
  then show ?case by simp
next
  case (Cons a kvs)
  obtain k v where a: "a = (k, v)" by (cases a)
  have "k \<notin> fst ` set d" using Cons.prems a by auto
  then have "dict_set d k v = d @ [(k, v)]" by (rule dict_set_fresh)
  moreover have "distinct (map fst ((d @ [(k, v)]) @ kvs))" using Cons.prems a by simp
  ultimately show ?case using Cons.IH[of "d @ [(k, v)]"] a by simp
qed

lemma dict_of_distinct: "distinct (map fst kvs) \<Longrightarrow> dict_of kvs = kvs"
  using foldl_dict_set_distinct[of "[]" kvs] by (simp add: dict_of_def)

subsection \<open>The loop that resolves the symbols\<close>

lemma resolve_loop_fst: "fst (resolve_loop xs ids m) = ids @ concat (map ids_of xs)"
  by (induction xs arbitrary: ids m) (auto simp: ids_of_def Let_def split: option.splits)

lemma resolve_loop_keys:
  "fst ` set (snd (resolve_loop xs ids m)) = fst ` set m \<union> upper ` set xs"
  by (induction xs arbitrary: ids m) (auto simp: Let_def keys_dict_set)

lemma resolve_loop_distinct:
  "distinct (map fst m) \<Longrightarrow> distinct (map fst (snd (resolve_loop xs ids m)))"
  by (induction xs arbitrary: ids m) (auto simp: Let_def distinct_dict_set)

lemma requested_ids_eq: "requested_ids symbols = concat (map ids_of (symbols_list_of symbols))"
  by (simp add: requested_ids_def resolve_loop_fst)

lemma requested_map_keys:
  "fst ` set (requested_map symbols) = upper ` set (symbols_list_of symbols)"
  by (simp add: requested_map_def resolve_loop_keys)

lemma requested_map_distinct: "distinct (map fst (requested_map symbols))"
  by (simp add: requested_map_def resolve_loop_distinct)

lemma all_none_eq: "distinct (map fst m) \<Longrightarrow> all_none m = map (\<lambda>k. (k, JNull)) (map fst m)"
  unfolding all_none_def by (rule dict_of_distinct) (simp add: comp_def)

lemma map_of_all_none:
  "distinct (map fst m) \<Longrightarrow>
   map_of (all_none m) k = (if k \<in> fst ` set m then Some JNull else None)"
  by (auto simp: all_none_eq map_of_eq_None_iff image_image comp_def intro!: map_of_is_SomeI)

subsection \<open>The body of \<open>get_simple_price\<close> in terms of its parts\<close>

lemma get_simple_price_unfold:
  "get_simple_price e symbols vs ttl s =
     (case cache_get e (price_cache_key symbols vs) ttl s of
        (cached, s1) \<Rightarrow>
          if cached \<noteq> JNull then (serve_cached (requested_map symbols) cached vs, s1)
          else if requested_ids symbols = [] then (Inr (all_none (requested_map symbols)), s1)
          else
            (case request_default e ''/simple/price''
                    (simple_price_params (requested_ids symbols) vs) s1 of
               (data, s2) \<Rightarrow>
                 (case request_failed data of
                    Inl err \<Rightarrow> (Inl err, s2)
                  | Inr failed \<Rightarrow>
                      if failed then (Inr (all_none (requested_map symbols)), s2)
                      else (project_loop (requested_map symbols) data vs [],
                            cache_set e (price_cache_key symbols vs) data s2))))"
proof -
  obtain ids mapping where r: "resolve_loop (symbols_list_of symbols) [] [] = (ids, mapping)"
    by fastforce
  show ?thesis
    unfolding get_simple_price_def requested_ids_def requested_map_def price_cache_key_def r
      Let_def fst_conv snd_conv prod.case ..
qed

subsection \<open>Reading the cache\<close>

lemma cache_get_absent: "cache s key = None \<Longrightarrow> cache_get e key ttl s = (JNull, s)"
  by (simp add: cache_get_def)

lemma cache_get_valid:
  "cache s key = Some (ts, d) \<Longrightarrow> clock e (ticks s) - ts \<le> real_of_int ttl \<Longrightarrow>
   cache_get e key ttl s = (d, s\<lparr>ticks := Suc (ticks s)\<rparr>)"
  by (simp add: cache_get_def now_def)

lemma cache_get_expired:
  "cache s key = Some (ts, d) \<Longrightarrow> clock e (ticks s) - ts > real_of_int ttl \<Longrightarrow>
   cache_get e key ttl s =
     (JNull, s\<lparr>cache := (cache s)(key := None), ticks := Suc (ticks s)\<rparr>)"
  by (simp add: cache_get_def now_def)

subsection \<open>Splitting and joining\<close>






subsection \<open>The request loop\<close>

lemma request_loop_frame:
  "cache (snd (request_loop e url params retries backoff attempt s)) = cache s \<and>
   ticks (snd (request_loop e url params retries backoff attempt s)) = ticks s \<and>
   (\<exists>n. sent (snd (request_loop e url params retries backoff attempt s)) =
          sent s @ replicate n \<lparr>req_url = url, req_params = params\<rparr>)"
proof (induction e url params retries backoff attempt s rule: request_loop.induct)
  case (1 e url params retries backoff attempt s)
  let ?req = "\<lparr>req_url = url, req_params = params\<rparr>"
  show ?case
  proof (cases "retries + 1 \<le> attempt")
    case True
    then show ?thesis by (subst (1 2 3) request_loop.simps) simp
  next
    case nle: False
    show ?thesis
    proof (cases "net e (length (sent s))")
      case (Response body)
      have "sent s @ [?req] = sent s @ replicate 1 ?req" by simp
      then show ?thesis using nle Response
        by (subst (1 2 3) request_loop.simps) (auto simp del: replicate.simps)
    next
      case (Failure msg)
      show ?thesis
      proof (cases "attempt = retries")
        case True
        have "sent s @ [?req] = sent s @ replicate 1 ?req" by simp
        then show ?thesis using nle Failure True
          by (subst (1 2 3) request_loop.simps) (auto simp del: replicate.simps)
      next
        case False
        let ?s' = "s\<lparr>sent := sent s @ [?req], slept := slept s @ [backoff * real_of_int (attempt + 1)]\<rparr>"
        from "1.IH"[OF nle refl Failure False]
        obtain n where ih: "cache (snd (request_loop e url params retries backoff (attempt + 1) ?s')) = cache s"
          "ticks (snd (request_loop e url params retries backoff (attempt + 1) ?s')) = ticks s"
          "sent (snd (request_loop e url params retries backoff (attempt + 1) ?s')) = sent ?s' @ replicate n ?req"
          by auto
        have "sent ?s' @ replicate n ?req = sent s @ replicate (Suc n) ?req" by simp
        with ih show ?thesis using nle Failure False
          by (subst (1 2 3) request_loop.simps) (auto simp del: replicate.simps)
      qed
    qed
  qed
qed

lemma request_loop_first_response:
  "attempt \<le> retries \<Longrightarrow> net e (length (sent s)) = Response body \<Longrightarrow>
   request_loop e url params retries backoff attempt s =
     (body, s\<lparr>sent := sent s @ [\<lparr>req_url = url, req_params = params\<rparr>]\<rparr>)"
  by (subst request_loop.simps) simp

lemma request_loop_sends:
  "attempt \<le> retries \<Longrightarrow>
   \<exists>rest. sent (snd (request_loop e url params retries backoff attempt s)) =
     sent s @ \<lparr>req_url = url, req_params = params\<rparr> # rest"
proof -
  assume le: "attempt \<le> retries"
  let ?req = "\<lparr>req_url = url, req_params = params\<rparr>"
  show ?thesis
  proof (cases "net e (length (sent s))")
    case (Response body)
    then show ?thesis using le by (simp add: request_loop_first_response)
  next
    case (Failure msg)
    show ?thesis
    proof (cases "attempt = retries")
      case True
      then show ?thesis using Failure by (subst request_loop.simps) simp
    next
      case False
      let ?s' = "s\<lparr>sent := sent s @ [?req], slept := slept s @ [backoff * real_of_int (attempt + 1)]\<rparr>"
      obtain n where "sent (snd (request_loop e url params retries backoff (attempt + 1) ?s')) = sent ?s' @ replicate n ?req"
        using request_loop_frame[of e url params retries backoff "attempt + 1" ?s'] by blast
      then show ?thesis using Failure False le by (subst request_loop.simps) simp
    qed
  qed
qed

lemma request_loop_result:
  "attempt \<le> retries \<Longrightarrow>
   (\<exists>m. fst (request_loop e url params retries backoff attempt s) = JObj [(''error'', JStr m)]) \<or>
   (\<exists>n. net e n = Response (fst (request_loop e url params retries backoff attempt s)))"
proof (induction e url params retries backoff attempt s rule: request_loop.induct)
  case (1 e url params retries backoff attempt s)
  have nle: "\<not> retries + 1 \<le> attempt" using "1.prems" by simp
  show ?case
  proof (cases "net e (length (sent s))")
    case (Response body)
    then show ?thesis using "1.prems" by (auto simp: request_loop_first_response)
  next
    case (Failure msg)
    show ?thesis
    proof (cases "attempt = retries")
      case True
      then show ?thesis using Failure by (subst (1 2) request_loop.simps) simp
    next
      case False
      then have "attempt + 1 \<le> retries" using "1.prems" by simp
      from "1.IH"[OF nle refl Failure False this] show ?thesis
        using Failure False nle by (subst (1 2) request_loop.simps) simp
    qed
  qed
qed

lemma request_loop_all_fail:
  assumes "attempt \<le> retries"
    and "\<forall>i < nat (retries - attempt + 1). \<exists>m. net e (length (sent s) + i) = Failure m"
  shows "\<exists>m. request_loop e url params retries backoff attempt s =
     (JObj [(''error'', JStr m)],
      s\<lparr>sent := sent s @ replicate (nat (retries - attempt + 1)) \<lparr>req_url = url, req_params = params\<rparr>,
        slept := slept s @ map (\<lambda>a. backoff * real_of_int (a + 1)) [attempt .. retries - 1]\<rparr>)"
  using assms
proof (induction e url params retries backoff attempt s rule: request_loop.induct)
  case (1 e url params retries backoff attempt s)
  have "0 < nat (retries - attempt + 1)" using "1.prems"(1) by simp
  with "1.prems"(2) obtain m where m: "net e (length (sent s)) = Failure m"
    by fastforce
  show ?case
  proof (cases "attempt = retries")
    case True
    then show ?thesis using m by (simp add: request_loop.simps)
  next
    case False
    let ?s' = "s\<lparr>sent := sent s @ [\<lparr>req_url = url, req_params = params\<rparr>], slept := slept s @ [backoff * real_of_int (attempt + 1)]\<rparr>"
    have lt: "attempt + 1 \<le> retries" using False "1.prems"(1) by simp
    have fl: "\<forall>i < nat (retries - (attempt + 1) + 1). \<exists>m. net e (length (sent ?s') + i) = Failure m"
    proof (intro allI impI)
      fix i assume "i < nat (retries - (attempt + 1) + 1)"
      then have "Suc i < nat (retries - attempt + 1)" using lt by linarith
      with "1.prems"(2) show "\<exists>m. net e (length (sent ?s') + i) = Failure m" by fastforce
    qed
    have nle: "\<not> retries + 1 \<le> attempt" using "1.prems"(1) by simp
    from "1.IH"[OF nle refl m False lt] fl
    obtain m' where ih: "request_loop e url params retries backoff (attempt + 1) ?s' =
       (JObj [(''error'', JStr m')],
        ?s'\<lparr>sent := sent ?s' @ replicate (nat (retries - (attempt + 1) + 1)) \<lparr>req_url = url, req_params = params\<rparr>,
          slept := slept ?s' @ map (\<lambda>a. backoff * real_of_int (a + 1)) [attempt + 1 .. retries - 1]\<rparr>)"
      by auto
    have "nat (retries - attempt + 1) = Suc (nat (retries - (attempt + 1) + 1))" using lt by linarith
    then have rep: "replicate (nat (retries - attempt + 1)) x = x # replicate (nat (retries - (attempt + 1) + 1)) x" for x :: request
      by simp
    have up: "[attempt .. retries - 1] = attempt # [attempt + 1 .. retries - 1]"
      using lt by (simp add: upto_rec1)
    show ?thesis
      using m False nle ih by (subst request_loop.simps) (simp add: rep up)
  qed
qed

subsection \<open>The fetch path when every attempt fails\<close>

lemma request_all_fail:
  assumes "0 \<le> retries"
    and "\<forall>i < nat (retries + 1). \<exists>m. net e (length (sent s) + i) = Failure m"
  shows "\<exists>m. request e path params retries backoff s =
     (JObj [(''error'', JStr m)],
      s\<lparr>sent := sent s @ replicate (nat (retries + 1)) \<lparr>req_url = COINGECKO_BASE @ path, req_params = params\<rparr>,
        slept := slept s @ map (\<lambda>attempt. backoff * real_of_int (attempt + 1)) [0 .. retries - 1]\<rparr>)"
  using request_loop_all_fail[of 0 retries e s "COINGECKO_BASE @ path" params backoff] assms
  by (simp add: request_def)

lemma cache_get_invalid:
  assumes "\<not> entry_valid e s key ttl"
  shows "fst (cache_get e key ttl s) = JNull"
    and "sent (snd (cache_get e key ttl s)) = sent s"
    and "slept (snd (cache_get e key ttl s)) = slept s"
    and "cache (snd (cache_get e key ttl s)) = cache s \<or> cache (snd (cache_get e key ttl s)) = (cache s)(key := None)"
  using assms by (auto simp: entry_valid_def cache_get_def now_def split: option.splits)

lemma upto_0_1: "[0 .. 1] = [0, 1::int]"
  by (simp add: upto_rec1)

lemma gsp_all_fail:
  assumes miss: "\<not> entry_valid e s (price_cache_key symbols vs) ttl"
    and ids: "requested_ids symbols \<noteq> []"
    and fail: "\<forall>i < 3. \<exists>m. net e (length (sent s) + i) = Failure m"
  shows "fst (get_simple_price e symbols vs ttl s) = Inr (map (\<lambda>k. (k, JNull)) (map fst (requested_map symbols)))"
    and "sent (snd (get_simple_price e symbols vs ttl s)) = sent s @ replicate 3 (price_request symbols vs)"
    and "slept (snd (get_simple_price e symbols vs ttl s)) = slept s @ [8 / 10 * 1, 8 / 10 * 2]"
    and "cache (snd (get_simple_price e symbols vs ttl s)) =
           cache (snd (cache_get e (price_cache_key symbols vs) ttl s))"
proof -
  obtain c s1 where cg: "cache_get e (price_cache_key symbols vs) ttl s = (c, s1)" by fastforce
  from cache_get_invalid[OF miss] cg have c: "c = JNull" and s1: "sent s1 = sent s" "slept s1 = slept s"
    by simp_all
  have "\<forall>i < nat (2 + 1). \<exists>m. net e (length (sent s1) + i) = Failure m"
    using fail s1 by simp
  from request_all_fail[OF _ this, of "''/simple/price''" "simple_price_params (requested_ids symbols) vs" "8 / 10"]
  obtain m where rq: "request_default e ''/simple/price'' (simple_price_params (requested_ids symbols) vs) s1 =
     (JObj [(''error'', JStr m)],
      s1\<lparr>sent := sent s1 @ replicate 3 (price_request symbols vs),
        slept := slept s1 @ [8 / 10 * 1, 8 / 10 * 2]\<rparr>)"
    by (auto simp: request_default_def price_request_def upto_0_1 numeral_3_eq_3)
  have rf: "request_failed (JObj [(''error'', JStr m)]) = Inr True"
    by (simp add: request_failed_def)
  have g: "get_simple_price e symbols vs ttl s =
      (Inr (all_none (requested_map symbols)), s1\<lparr>sent := sent s1 @ replicate 3 (price_request symbols vs),
        slept := slept s1 @ [8 / 10 * 1, 8 / 10 * 2]\<rparr>)"
    by (simp add: get_simple_price_unfold cg c ids rq rf)
  show "fst (get_simple_price e symbols vs ttl s) = Inr (map (\<lambda>k. (k, JNull)) (map fst (requested_map symbols)))"
    by (simp add: g all_none_eq requested_map_distinct)
  show "sent (snd (get_simple_price e symbols vs ttl s)) = sent s @ replicate 3 (price_request symbols vs)"
    by (simp add: g s1)
  show "slept (snd (get_simple_price e symbols vs ttl s)) = slept s @ [8 / 10 * 1, 8 / 10 * 2]"
    by (simp add: g s1)
  show "cache (snd (get_simple_price e symbols vs ttl s)) =
           cache (snd (cache_get e (price_cache_key symbols vs) ttl s))"
    by (simp add: g cg)
qed

subsection \<open>Evaluation of sample calls\<close>

lemmas world_defs = fresh_state_def provider_down_def provider_answers_def second_clock_def

lemmas resolve_defs = requested_ids_def requested_map_def symbols_list_of_def symbol_to_id_def SYMBOL_TO_ID_def price_cache_key_def simple_price_key_def price_request_def simple_price_params_def

lemma btc_call_parts: "requested_ids (SymbolList [''BTC'']) = [''bitcoin'']" "requested_map (SymbolList [''BTC'']) = [(''BTC'', Some ''bitcoin'')]"
   "price_cache_key (SymbolList [''BTC'']) ''usd'' = ''simple_price:bitcoin:usd''"
  by (simp_all add: resolve_defs string_defs)

subsection \<open>The fetch after an expired entry\<close>

lemma get_simple_price_expired_fetches:
  assumes "cache s (price_cache_key symbols vs) = Some (T, d)"
    and "clock e (ticks s) - T > real_of_int ttl"
    and "requested_ids symbols \<noteq> []"
  shows "\<exists>rest. sent (snd (get_simple_price e symbols vs ttl s)) =
           sent s @ price_request symbols vs # rest"
proof -
  let ?s1 = "s\<lparr>cache := (cache s)(price_cache_key symbols vs := None), ticks := Suc (ticks s)\<rparr>"
  have cg: "cache_get e (price_cache_key symbols vs) ttl s = (JNull, ?s1)"
    using assms(1,2) by (rule cache_get_expired)
  obtain data s2 where rq:
    "request_default e ''/simple/price'' (simple_price_params (requested_ids symbols) vs) ?s1 =
       (data, s2)"
    by fastforce
  from request_loop_sends[of 0 2 e "COINGECKO_BASE @ ''/simple/price''"
      "simple_price_params (requested_ids symbols) vs" "8 / 10" ?s1]
  obtain rest where s2: "sent s2 = sent s @ price_request symbols vs # rest"
    using rq by (auto simp: request_default_def request_def price_request_def)
  have "sent (snd (get_simple_price e symbols vs ttl s)) = sent s2"
    by (auto simp: get_simple_price_unfold cg assms(3) rq cache_set_def now_def split: sum.splits)
  with s2 show ?thesis by simp
qed

subsection \<open>Sorting and multisets\<close>

lemma sort_cong_mset:
  fixes xs ys :: "string list"
  assumes "mset xs = mset ys"
  shows "sort xs = sort ys"
  by (rule properties_for_sort) (simp_all add: assms)

lemma mset_concat_map: "mset (concat (map f xs)) = (\<Sum>x\<in>#mset xs. mset (f x))"
  by (induction xs) auto

subsection \<open>What the cache operations change\<close>

lemma cache_get_frame:
  "sent (snd (cache_get e key ttl s)) = sent s"
  "slept (snd (cache_get e key ttl s)) = slept s"
  "cache (snd (cache_get e key ttl s)) = cache s \<or>
   cache (snd (cache_get e key ttl s)) = (cache s)(key := None)"
  by (auto simp: cache_get_def now_def split: option.splits)

lemma cache_get_result:
  "fst (cache_get e key ttl s) = JNull \<or>
   (\<exists>ts. cache s key = Some (ts, fst (cache_get e key ttl s)))"
  by (auto simp: cache_get_def now_def split: option.splits)

lemma cache_get_miss_no_entry:
  "\<not> truthy (fst (cache_get e key ttl s)) \<Longrightarrow> stored_truthy s \<Longrightarrow>
   cache (snd (cache_get e key ttl s)) key = None"
  by (auto simp: cache_get_def now_def stored_truthy_def split: option.splits if_splits)

lemma stored_truthy_cache_get: "stored_truthy s \<Longrightarrow> stored_truthy (snd (cache_get e key ttl s))"
  by (auto simp: cache_get_def now_def stored_truthy_def split: option.splits if_splits)

lemma stored_truthy_cache_set:
  "stored_truthy s \<Longrightarrow> truthy v \<Longrightarrow> stored_truthy (cache_set e key v s)"
  by (auto simp: cache_set_def now_def stored_truthy_def)

lemma stored_truthy_cong: "cache s' = cache s \<Longrightarrow> stored_truthy s \<Longrightarrow> stored_truthy s'"
  by (simp add: stored_truthy_def)

lemma request_default_frame:
  "cache (snd (request_default e path params s)) = cache s"
  "ticks (snd (request_default e path params s)) = ticks s"
  using request_loop_frame[of e "COINGECKO_BASE @ path" params 2 "8 / 10" 0 s]
  by (simp_all add: request_default_def request_def)

lemma request_default_first_response:
  "net e (length (sent s)) = Response body \<Longrightarrow>
   request_default e path params s =
     (body, s\<lparr>sent := sent s @ [\<lparr>req_url = COINGECKO_BASE @ path, req_params = params\<rparr>]\<rparr>)"
  by (simp add: request_default_def request_def request_loop_first_response)

lemma request_default_result:
  "(\<exists>m. fst (request_default e path params s) = JObj [(''error'', JStr m)]) \<or>
   (\<exists>n. net e n = Response (fst (request_default e path params s)))"
  using request_loop_result[of 0 2 e "COINGECKO_BASE @ path" params "8 / 10" s]
  by (simp add: request_default_def request_def)

lemma request_failed_False_truthy: "request_failed data = Inr False \<Longrightarrow> truthy data"
  by (auto simp: request_failed_def split: if_splits)

lemma truthy_not_null: "truthy data \<Longrightarrow> data \<noteq> JNull"
  by auto

subsection \<open>The cached path and the first successful fetch of \<open>get_simple_price\<close>\<close>

lemma get_simple_price_hit:
  assumes "cache s (price_cache_key symbols vs) = Some (T, d)"
    and "clock e (ticks s) - T \<le> real_of_int ttl"
    and "d \<noteq> JNull"
  shows "get_simple_price e symbols vs ttl s =
           (serve_cached (requested_map symbols) d vs, s\<lparr>ticks := Suc (ticks s)\<rparr>)"
proof -
  have "cache_get e (price_cache_key symbols vs) ttl s = (d, s\<lparr>ticks := Suc (ticks s)\<rparr>)"
    using assms(1,2) by (rule cache_get_valid)
  then show ?thesis using assms(3) by (simp add: get_simple_price_unfold)
qed

lemma cache_get_invalid_state:
  assumes "\<not> entry_valid e s key ttl"
  shows "\<exists>s1. cache_get e key ttl s = (JNull, s1) \<and> sent s1 = sent s \<and> slept s1 = slept s"
  using assms by (auto simp: entry_valid_def cache_get_def now_def split: option.splits)

lemma get_simple_price_first_response:
  assumes miss: "\<not> entry_valid e s (price_cache_key symbols vs) ttl"
    and ids: "requested_ids symbols \<noteq> []"
    and resp: "net e (length (sent s)) = Response body"
    and ok: "request_failed body = Inr False"
  shows "\<exists>s1. sent s1 = sent s \<and>
           get_simple_price e symbols vs ttl s =
             (project_loop (requested_map symbols) body vs [],
              s1\<lparr>sent := sent s @ [price_request symbols vs],
                 ticks := Suc (ticks s1),
                 cache := (cache s1)(price_cache_key symbols vs \<mapsto> (clock e (ticks s1), body))\<rparr>)"
proof -
  from cache_get_invalid_state[OF miss] obtain s1
    where cg: "cache_get e (price_cache_key symbols vs) ttl s = (JNull, s1)"
      and s1: "sent s1 = sent s" by blast
  have rq: "request_default e ''/simple/price'' (simple_price_params (requested_ids symbols) vs) s1 =
      (body, s1\<lparr>sent := sent s1 @ [price_request symbols vs]\<rparr>)"
    using resp s1 by (simp add: request_default_first_response price_request_def)
  have "get_simple_price e symbols vs ttl s =
      (project_loop (requested_map symbols) body vs [],
       s1\<lparr>sent := sent s @ [price_request symbols vs],
          ticks := Suc (ticks s1),
          cache := (cache s1)(price_cache_key symbols vs \<mapsto> (clock e (ticks s1), body))\<rparr>)"
    by (simp add: get_simple_price_unfold cg ids rq ok cache_set_def now_def s1)
  with s1 show ?thesis by blast
qed

lemma stored_truthy_get_simple_price:
  assumes "stored_truthy s"
  shows "stored_truthy (snd (get_simple_price e symbols vs ttl s))"
proof -
  obtain c s1 where cg: "cache_get e (price_cache_key symbols vs) ttl s = (c, s1)" by fastforce
  have t1: "stored_truthy s1" using stored_truthy_cache_get[OF assms, of e "price_cache_key symbols vs" ttl] cg by simp
  obtain data s2 where rq:
    "request_default e ''/simple/price'' (simple_price_params (requested_ids symbols) vs) s1 = (data, s2)"
    by fastforce
  have "cache s2 = cache s1"
    using request_default_frame(1)[of e "''/simple/price''" "simple_price_params (requested_ids symbols) vs" s1] rq
    by simp
  then have t2: "stored_truthy s2" using t1 by (rule stored_truthy_cong)
  show ?thesis
    using t1 t2
    by (auto simp: get_simple_price_unfold cg rq stored_truthy_cache_set request_failed_False_truthy
        split: sum.splits)
qed

subsection \<open>The result of a request when every outcome is a failed one\<close>







subsection \<open>What \<open>strip\<close> removes\<close>





subsection \<open>The cache after each operation\<close>

lemma cache_step_lookup_store:
  assumes "c1 = c \<or> c1 = c(key := None)"
    and "c' = c1 \<or> (\<exists>t v. P v \<and> c' = c1(key \<mapsto> (t, v)))"
  shows "cache_step c key P c'"
  using assms(2)
proof
  assume "c' = c1"
  with assms(1) show ?thesis unfolding cache_step_def by blast
next
  assume "\<exists>t v. P v \<and> c' = c1(key \<mapsto> (t, v))"
  then obtain t v where v: "P v" and c': "c' = c1(key \<mapsto> (t, v))" by blast
  have "c1(key \<mapsto> (t, v)) = c(key \<mapsto> (t, v))" using assms(1) by auto
  with v c' show ?thesis unfolding cache_step_def by blast
qed

lemma cache_step_same: "cache_step c key P c"
  by (simp add: cache_step_def)

lemma get_fields_keys: "get_fields record ks = Inr out \<Longrightarrow> map fst out = ks"
  unfolding get_fields_def
proof (induction ks arbitrary: out)
  case Nil
  then show ?case by simp
next
  case (Cons k ks)
  then show ?case by (auto split: sum.splits)
qed

lemma get_simple_price_cache_step:
  "cache_step (cache s) (price_cache_key symbols vs)
     (\<lambda>v. request_failed v = Inr False \<and> (\<exists>n. net e n = Response v))
     (cache (snd (get_simple_price e symbols vs ttl s)))"
proof -
  let ?key = "price_cache_key symbols vs"
  let ?params = "simple_price_params (requested_ids symbols) vs"
  obtain c s1 where cg: "cache_get e ?key ttl s = (c, s1)" by fastforce
  obtain data s2 where rq: "request_default e ''/simple/price'' ?params s1 = (data, s2)"
    by fastforce
  have c1: "cache s1 = cache s \<or> cache s1 = (cache s)(?key := None)"
    using cache_get_frame(3)[of e ?key ttl s] cg by simp
  have c2: "cache s2 = cache s1"
    using request_default_frame(1)[of e "''/simple/price''" ?params s1] rq by simp
  have resp: "request_failed data = Inr False \<Longrightarrow> \<exists>n. net e n = Response data"
    using request_default_result[of e "''/simple/price''" ?params s1] rq
    by (auto simp: request_failed_def)
  have "cache (snd (get_simple_price e symbols vs ttl s)) = cache s1 \<or>
        (\<exists>t v. (request_failed v = Inr False \<and> (\<exists>n. net e n = Response v)) \<and>
           cache (snd (get_simple_price e symbols vs ttl s)) = (cache s1)(?key \<mapsto> (t, v)))"
    using c2 resp
    by (auto simp: get_simple_price_unfold cg rq cache_set_def now_def split: sum.splits)
  with c1 show ?thesis by (rule cache_step_lookup_store)
qed

lemma get_market_data_cache_step:
  "\<exists>key. cache_step (cache s) key (\<lambda>v. \<exists>out. v = JObj out \<and> map fst out = market_fields)
     (cache (snd (get_market_data e symbol vs ttl s))) \<and>
     (\<exists>coin_id. key = market_data_key coin_id vs)"
proof (cases "symbol_to_id symbol")
  case None
  then have "cache (snd (get_market_data e symbol vs ttl s)) = cache s"
    by (simp add: get_market_data_def)
  then show ?thesis unfolding cache_step_def by blast
next
  case (Some coin_id)
  let ?key = "market_data_key coin_id vs"
  let ?P = "\<lambda>v. \<exists>out. v = JObj out \<and> map fst out = market_fields"
  obtain c s1 where cg: "cache_get e ?key ttl s = (c, s1)" by fastforce
  obtain data s2 where rq:
    "request_default e ''/coins/markets'' (market_params coin_id vs) s1 = (data, s2)"
    by fastforce
  have c1: "cache s1 = cache s \<or> cache s1 = (cache s)(?key := None)"
    using cache_get_frame(3)[of e ?key ttl s] cg by simp
  have c2: "cache s2 = cache s1"
    using request_default_frame(1)[of e "''/coins/markets''" "market_params coin_id vs" s1] rq
    by simp
  have "cache (snd (get_market_data e symbol vs ttl s)) = cache s \<or>
        cache (snd (get_market_data e symbol vs ttl s)) = cache s1 \<or>
        (\<exists>t v. ?P v \<and> cache (snd (get_market_data e symbol vs ttl s)) = (cache s1)(?key \<mapsto> (t, v)))"
    using c2
    by (auto simp: get_market_data_def Let_def Some cg rq cache_set_def now_def
        split: sum.splits json.splits list.splits)
       (metis get_fields_keys)
  then have "cache_step (cache s) ?key ?P (cache (snd (get_market_data e symbol vs ttl s)))"
  proof
    assume "cache (snd (get_market_data e symbol vs ttl s)) = cache s"
    then show ?thesis by (simp add: cache_step_same)
  next
    assume "cache (snd (get_market_data e symbol vs ttl s)) = cache s1 \<or>
        (\<exists>t v. ?P v \<and> cache (snd (get_market_data e symbol vs ttl s)) = (cache s1)(?key \<mapsto> (t, v)))"
    with c1 show ?thesis by (rule cache_step_lookup_store)
  qed
  then show ?thesis by blast
qed

lemma get_coin_info_cache_step:
  "\<exists>key. cache_step (cache s) key (\<lambda>v. \<exists>data. coin_info_record data = Inr v)
     (cache (snd (get_coin_info e symbol ttl s))) \<and>
     (\<exists>coin_id. key = coin_info_key coin_id)"
proof (cases "symbol_to_id symbol")
  case None
  then have "cache (snd (get_coin_info e symbol ttl s)) = cache s"
    by (simp add: get_coin_info_def)
  then show ?thesis unfolding cache_step_def by blast
next
  case (Some coin_id)
  let ?key = "coin_info_key coin_id"
  let ?P = "\<lambda>v. \<exists>data. coin_info_record data = Inr v"
  obtain c s1 where cg: "cache_get e ?key ttl s = (c, s1)" by fastforce
  obtain data s2 where rq:
    "request_default e (coin_info_path coin_id) coin_info_params s1 = (data, s2)"
    by fastforce
  have c1: "cache s1 = cache s \<or> cache s1 = (cache s)(?key := None)"
    using cache_get_frame(3)[of e ?key ttl s] cg by simp
  have c2: "cache s2 = cache s1"
    using request_default_frame(1)[of e "coin_info_path coin_id" coin_info_params s1] rq
    by simp
  have "cache (snd (get_coin_info e symbol ttl s)) = cache s \<or>
        cache (snd (get_coin_info e symbol ttl s)) = cache s1 \<or>
        (\<exists>t v. ?P v \<and> cache (snd (get_coin_info e symbol ttl s)) = (cache s1)(?key \<mapsto> (t, v)))"
    using c2
    by (auto simp: get_coin_info_def Let_def Some cg rq cache_set_def now_def split: sum.splits)
  then have "cache_step (cache s) ?key ?P (cache (snd (get_coin_info e symbol ttl s)))"
  proof
    assume "cache (snd (get_coin_info e symbol ttl s)) = cache s"
    then show ?thesis by (simp add: cache_step_same)
  next
    assume "cache (snd (get_coin_info e symbol ttl s)) = cache s1 \<or>
        (\<exists>t v. ?P v \<and> cache (snd (get_coin_info e symbol ttl s)) = (cache s1)(?key \<mapsto> (t, v)))"
    with c1 show ?thesis by (rule cache_step_lookup_store)
  qed
  then show ?thesis by blast
qed

lemma search_coin_cache_step:
  "cache_step (cache s) (search_key query limit) (\<lambda>v. \<exists>coins. v = JObj [(''coins'', coins)])
     (cache (snd (search_coin e query limit s)))"
proof (cases "query = []")
  case True
  then have "cache (snd (search_coin e query limit s)) = cache s"
    by (simp add: search_coin_def)
  then show ?thesis unfolding cache_step_def by blast
next
  case False
  let ?key = "search_key query limit"
  let ?P = "\<lambda>v. \<exists>coins. v = JObj [(''coins'', coins)]"
  obtain c s1 where cg: "cache_get e ?key DEFAULT_TTL s = (c, s1)" by fastforce
  obtain data s2 where rq:
    "request_default e ''/search'' [(''query'', JStr query)] s1 = (data, s2)"
    by fastforce
  have c1: "cache s1 = cache s \<or> cache s1 = (cache s)(?key := None)"
    using cache_get_frame(3)[of e ?key DEFAULT_TTL s] cg by simp
  have c2: "cache s2 = cache s1"
    using request_default_frame(1)[of e "''/search''" "[(''query'', JStr query)]" s1] rq
    by simp
  have "cache (snd (search_coin e query limit s)) = cache s1 \<or>
        (\<exists>t v. ?P v \<and> cache (snd (search_coin e query limit s)) = (cache s1)(?key \<mapsto> (t, v)))"
    using c2 False
    by (auto simp: search_coin_def Let_def cg rq cache_set_def now_def split: sum.splits)
  with c1 show ?thesis by (rule cache_step_lookup_store)
qed

subsection \<open>Every stored value is truthy: the other operations\<close>

lemma stored_truthy_step:
  assumes "stored_truthy s" and "cache_step (cache s) key P (cache s')"
    and "\<And>v. P v \<Longrightarrow> truthy v"
  shows "stored_truthy s'"
  using assms unfolding stored_truthy_def cache_step_def
  by (auto split: if_splits)

lemma coin_info_record_nonempty: "coin_info_record data = Inr v \<Longrightarrow> truthy v"
  by (auto simp: coin_info_record_def split: sum.splits)

lemma stored_truthy_get_market_data:
  "stored_truthy s \<Longrightarrow> stored_truthy (snd (get_market_data e symbol vs ttl s))"
  using get_market_data_cache_step[where s=s and vs=vs and e=e and symbol=symbol and ttl=ttl]
  by (auto elim!: stored_truthy_step simp: market_fields_def)

lemma stored_truthy_get_coin_info:
  "stored_truthy s \<Longrightarrow> stored_truthy (snd (get_coin_info e symbol ttl s))"
  using get_coin_info_cache_step[where s=s and e=e and symbol=symbol and ttl=ttl]
  by (auto elim!: stored_truthy_step simp: coin_info_record_nonempty)

lemma stored_truthy_search_coin:
  "stored_truthy s \<Longrightarrow> stored_truthy (snd (search_coin e query limit s))"
  using search_coin_cache_step[where s=s and e=e and query=query and limit=limit]
  by (auto elim!: stored_truthy_step)

subsection \<open>Slices are bounded\<close>

lemma slice_to_length: "0 \<le> n \<Longrightarrow> length (slice_to n xs) \<le> nat n"
  by (simp add: slice_to_def)

lemma py_slice_len:
  "0 \<le> n \<Longrightarrow> py_slice v n = Inr w \<Longrightarrow> \<exists>k. py_len w = Some k \<and> k \<le> nat n"
  by (cases v) (auto simp: slice_to_length)

lemma nested_slice_len:
  "0 \<le> n \<Longrightarrow> nested_slice data outer inner dflt n = Inr w \<Longrightarrow>
   \<exists>k. py_len w = Some k \<and> k \<le> nat n"
  by (auto simp: nested_slice_def split: sum.splits dest: py_slice_len)

lemma map_of_append_fresh:
  "k \<notin> set (map fst xs) \<Longrightarrow> map_of (xs @ ys) k = map_of ys k"
  by (induction xs) auto

lemma coin_info_record_bounded:
  assumes "coin_info_record data = Inr out"
  shows "bounded_info out"
proof -
  from assms obtain basic description homepage
    where b: "get_fields data [''id'', ''symbol'', ''name''] = Inr basic"
      and d: "nested_slice data ''description'' ''en'' (JStr []) 800 = Inr description"
      and h: "nested_slice data ''links'' ''homepage'' (JList []) 3 = Inr homepage"
      and out: "out = JObj (basic @ [(''description'', description), (''homepage'', homepage)])"
    by (auto simp: coin_info_record_def split: sum.splits)
  have keys: "map fst basic = [''id'', ''symbol'', ''name'']"
    using b by (rule get_fields_keys)
  from nested_slice_len[OF _ d] obtain n where n: "py_len description = Some n" "n \<le> 800"
    by auto
  from nested_slice_len[OF _ h] obtain m where m: "py_len homepage = Some m" "m \<le> 3"
    by auto
  have 1: "field_len out ''description'' = Some n"
    by (simp add: field_len_def out map_of_append_fresh keys n del: map_of_append)
  have 2: "field_len out ''homepage'' = Some m"
    by (simp add: field_len_def out map_of_append_fresh keys m del: map_of_append)
  show ?thesis using 1 2 n m by (simp add: bounded_info_def)
qed

lemma coin_info_record_documented:
  assumes "map_of kvs ''description'' = Some (JObj dk)" and "dk \<noteq> []"
    and "map_of dk ''en'' = Some (JStr en)"
    and "map_of kvs ''links'' = Some (JObj lk)" and "lk \<noteq> []"
    and "map_of lk ''homepage'' = Some (JList urls)"
  shows "coin_info_record (JObj kvs) =
     Inr (JObj [(''id'', case map_of kvs ''id'' of None \<Rightarrow> JNull | Some v \<Rightarrow> v),
                (''symbol'', case map_of kvs ''symbol'' of None \<Rightarrow> JNull | Some v \<Rightarrow> v),
                (''name'', case map_of kvs ''name'' of None \<Rightarrow> JNull | Some v \<Rightarrow> v),
                (''description'', JStr (take 800 en)),
                (''homepage'', JList (take 3 urls))])"
  using assms
  by (simp add: coin_info_record_def get_fields_def nested_slice_def slice_to_def)

subsection \<open>The keys of the four operations are apart\<close>

lemma coin_info_key_apart:
  "simple_price_key ids vs \<noteq> coin_info_key c"
  "market_data_key c' vs \<noteq> coin_info_key c"
  "search_key q l \<noteq> coin_info_key c"
  by (simp_all add: simple_price_key_def market_data_key_def search_key_def coin_info_key_def)

subsection \<open>The records under the keys of \<open>get_coin_info\<close> stay bounded\<close>

lemma coin_info_cache_bounded_step:
  assumes "coin_info_cache_bounded s" and "cache_step (cache s) key P (cache s')"
    and "(\<exists>c. key = coin_info_key c) \<Longrightarrow> (\<forall>v. P v \<longrightarrow> bounded_info v)"
  shows "coin_info_cache_bounded s'"
  using assms unfolding coin_info_cache_bounded_def cache_step_def
  by (auto split: if_splits) metis+

lemma coin_info_cache_bounded_get_coin_info:
  "coin_info_cache_bounded s \<Longrightarrow> coin_info_cache_bounded (snd (get_coin_info e symbol ttl s))"
  using get_coin_info_cache_step[where s=s and e=e and symbol=symbol and ttl=ttl]
  by (auto elim!: coin_info_cache_bounded_step simp: coin_info_record_bounded)

lemma coin_info_cache_bounded_get_simple_price:
  "coin_info_cache_bounded s \<Longrightarrow>
   coin_info_cache_bounded (snd (get_simple_price e symbols vs ttl s))"
  using get_simple_price_cache_step[where s=s and e=e and symbols=symbols and vs=vs and ttl=ttl]
  by (auto elim!: coin_info_cache_bounded_step simp: price_cache_key_def coin_info_key_apart)

lemma coin_info_cache_bounded_get_market_data:
  "coin_info_cache_bounded s \<Longrightarrow>
   coin_info_cache_bounded (snd (get_market_data e symbol vs ttl s))"
  using get_market_data_cache_step[where s=s and e=e and symbol=symbol and vs=vs and ttl=ttl]
  by (auto elim!: coin_info_cache_bounded_step simp: coin_info_key_apart)

lemma coin_info_cache_bounded_search_coin:
  "coin_info_cache_bounded s \<Longrightarrow> coin_info_cache_bounded (snd (search_coin e query limit s))"
  using search_coin_cache_step[where s=s and e=e and query=query and limit=limit]
  by (auto elim!: coin_info_cache_bounded_step simp: coin_info_key_apart)

subsection \<open>What \<open>get_coin_info\<close> returns\<close>

lemma error_marker_is_marker: "is_error_marker (error_marker data)"
  by (simp add: is_error_marker_def error_marker_def)

lemma get_coin_info_result:
  assumes "fst (get_coin_info e symbol ttl s) = Inr r"
  shows "is_error_marker r \<or>
         (\<exists>coin_id ts. cache s (coin_info_key coin_id) = Some (ts, r)) \<or>
         (\<exists>data. coin_info_record data = Inr r)"
proof (cases "symbol_to_id symbol")
  case None
  then show ?thesis using assms by (auto simp: get_coin_info_def is_error_marker_def)
next
  case (Some coin_id)
  let ?key = "coin_info_key coin_id"
  obtain c s1 where cg: "cache_get e ?key ttl s = (c, s1)" by fastforce
  obtain data s2 where rq:
    "request_default e (coin_info_path coin_id) coin_info_params s1 = (data, s2)"
    by fastforce
  have hit: "truthy c \<Longrightarrow> \<exists>ts. cache s ?key = Some (ts, c)"
    using cache_get_result[of e ?key ttl s] cg by auto
  show ?thesis
    using assms hit
    by (auto simp: get_coin_info_def Let_def Some cg rq error_marker_is_marker
        split: sum.splits if_splits)
       (simp add: is_error_marker_def)
qed

lemma symbol_to_id_nonempty: "symbol_to_id x = Some c \<Longrightarrow> c \<noteq> []"
proof -
  assume a: "symbol_to_id x = Some c"
  have "c \<in> set (map snd SYMBOL_TO_ID)"
  proof (cases "map_of SYMBOL_TO_ID (upper (strip x))")
    case None
    then show ?thesis
      using a by (auto simp: symbol_to_id_def Let_def split: if_splits)
  next
    case (Some d)
    then have "d = c" using a by (auto simp: symbol_to_id_def Let_def split: if_splits)
    with Some have "(upper (strip x), c) \<in> set SYMBOL_TO_ID" by (auto dest: map_of_SomeD)
    then show ?thesis by force
  qed
  then show ?thesis by (auto simp: SYMBOL_TO_ID_def)
qed

lemma get_coin_info_fetch:
  assumes "symbol_to_id symbol = Some coin_id"
    and "cache s (coin_info_key coin_id) = None"
    and "net e (length (sent s)) = Response body"
    and "request_failed body = Inr False"
    and "coin_info_record body = Inr out"
  shows "fst (get_coin_info e symbol ttl s) = Inr out"
proof -
  have ne: "coin_id \<noteq> []" using assms(1) by (rule symbol_to_id_nonempty)
  have cg: "cache_get e (coin_info_key coin_id) ttl s = (JNull, s)"
    using assms(2) by (rule cache_get_absent)
  have rq: "request_default e (coin_info_path coin_id) coin_info_params s =
      (body, s\<lparr>sent := sent s @ [\<lparr>req_url = COINGECKO_BASE @ coin_info_path coin_id,
                                    req_params = coin_info_params\<rparr>]\<rparr>)"
    using assms(3) by (rule request_default_first_response)
  show ?thesis
    by (simp add: get_coin_info_def Let_def assms(1,4,5) ne cg rq)
qed

subsection \<open>Upper-casing twice\<close>




subsection \<open>Running over a list without an exception\<close>


subsection \<open>Bodies of the price shape raise nothing\<close>






subsection \<open>The result of a request when the provider answers in a shape\<close>





subsection \<open>No operation raises on such answers\<close>








subsection \<open>The values under the keys of \<open>get_simple_price\<close> keep the price shape\<close>







subsection \<open>Symbol resolution\<close>

text \<open>
  Claim C6.  For every ticker symbol \<open>S\<close> that is a key of \<open>SYMBOL_TO_ID\<close>, with
  \<open>SYMBOL_TO_ID[S] = cid\<close>: \<open>symbol_to_id(S.upper())\<close>, \<open>symbol_to_id(S.lower())\<close> and
  \<open>symbol_to_id(cid)\<close>, the call on the provider identifier itself, all return \<open>cid\<close>.
\<close>

theorem symbol_to_id_case_and_identifier:
  "\<forall>(S, cid) \<in> set SYMBOL_TO_ID.
     map_of SYMBOL_TO_ID S = Some cid \<and>
     symbol_to_id (upper S) = Some cid \<and>
     symbol_to_id (lower S) = Some cid \<and>
     symbol_to_id cid = Some cid"
  by code_simp

theorem symbol_to_id_case_and_identifier_witness:
  "(''BTC'', ''bitcoin'') \<in> set SYMBOL_TO_ID \<and>
   symbol_to_id ''BTC'' = Some ''bitcoin'' \<and>
   symbol_to_id ''btc'' = Some ''bitcoin'' \<and>
   symbol_to_id ''bitcoin'' = Some ''bitcoin''"
proof -
  have m: "(''BTC'', ''bitcoin'') \<in> set SYMBOL_TO_ID"
    by (simp add: SYMBOL_TO_ID_def)
  from symbol_to_id_case_and_identifier [THEN bspec, OF m] show ?thesis
    using m by (simp add: string_defs)
qed

subsection \<open>Retries and failure of the fetch\<close>

text \<open>
  Claim C1.  When every attempt of the HTTP request fails with a \<open>requests\<close> error, the
  loop of \<open>_request\<close> (with a delay \<open>backoff\<close> that is not negative) makes exactly
  \<open>retries + 1\<close> attempts and sleeps
  \<open>backoff * (attempt + 1)\<close> after each attempt but the last, and returns the error dict.
  A call of \<open>get_simple_price\<close> that reaches the request (no valid cache entry, at least one
  resolved identifier) then makes exactly three attempts, sleeps \<open>0.8\<close> and \<open>1.6\<close> seconds
  between them, and returns, without raising, a dict that has the value \<open>None\<close> for every
  requested symbol (under the key \<open>symbol.upper()\<close>, as \<open>mapping\<close> has it).
\<close>

theorem failed_fetch_retries_then_none:
  "(0 \<le> retries \<and> 0 \<le> backoff \<and>
    (\<forall>i < nat (retries + 1). \<exists>m. net e (length (sent s) + i) = Failure m) \<longrightarrow>
      (\<exists>m. request e path params retries backoff s =
         (JObj [(''error'', JStr m)],
          s\<lparr>sent := sent s @ replicate (nat (retries + 1))
                        \<lparr>req_url = COINGECKO_BASE @ path, req_params = params\<rparr>,
            slept := slept s @
                       map (\<lambda>attempt. backoff * real_of_int (attempt + 1)) [0 .. retries - 1]\<rparr>)))
   \<and>
   (\<not> entry_valid e s (price_cache_key symbols vs) ttl \<and> requested_ids symbols \<noteq> [] \<and>
    (\<forall>i < 3. \<exists>m. net e (length (sent s) + i) = Failure m) \<longrightarrow>
      (\<exists>result. fst (get_simple_price e symbols vs ttl s) = Inr result \<and>
         map fst result = map fst (requested_map symbols) \<and>
         (\<forall>x \<in> set (symbols_list_of symbols). map_of result (upper x) = Some JNull) \<and>
         (\<forall>(k, v) \<in> set result. v = JNull)) \<and>
      sent (snd (get_simple_price e symbols vs ttl s)) = sent s @ replicate 3 (price_request symbols vs) \<and>
      slept (snd (get_simple_price e symbols vs ttl s)) = slept s @ [8 / 10 * 1, 8 / 10 * 2])"
proof (intro conjI impI)
  assume "0 \<le> retries \<and> 0 \<le> backoff \<and>
    (\<forall>i < nat (retries + 1). \<exists>m. net e (length (sent s) + i) = Failure m)"
  then show "\<exists>m. request e path params retries backoff s =
         (JObj [(''error'', JStr m)],
          s\<lparr>sent := sent s @ replicate (nat (retries + 1))
                        \<lparr>req_url = COINGECKO_BASE @ path, req_params = params\<rparr>,
            slept := slept s @
                       map (\<lambda>attempt. backoff * real_of_int (attempt + 1)) [0 .. retries - 1]\<rparr>)"
    using request_all_fail by blast
next
  assume h: "\<not> entry_valid e s (price_cache_key symbols vs) ttl \<and> requested_ids symbols \<noteq> [] \<and>
    (\<forall>i < 3. \<exists>m. net e (length (sent s) + i) = Failure m)"
  let ?r = "map (\<lambda>k. (k, JNull)) (map fst (requested_map symbols))"
  have r: "fst (get_simple_price e symbols vs ttl s) = Inr ?r"
    using gsp_all_fail(1) h by blast
  have keys: "map fst ?r = map fst (requested_map symbols)" by (simp add: comp_def)
  have look: "\<forall>x \<in> set (symbols_list_of symbols). map_of ?r (upper x) = Some JNull"
  proof
    fix x assume "x \<in> set (symbols_list_of symbols)"
    then have "upper x \<in> fst ` set (requested_map symbols)" by (simp add: requested_map_keys)
    then show "map_of ?r (upper x) = Some JNull"
      using map_of_all_none[OF requested_map_distinct, of symbols "upper x"]
      by (simp add: all_none_eq requested_map_distinct)
  qed
  have vals: "\<forall>(k, v) \<in> set ?r. v = JNull" by auto
  show "\<exists>result. fst (get_simple_price e symbols vs ttl s) = Inr result \<and>
         map fst result = map fst (requested_map symbols) \<and>
         (\<forall>x \<in> set (symbols_list_of symbols). map_of result (upper x) = Some JNull) \<and>
         (\<forall>(k, v) \<in> set result. v = JNull)"
    using r keys look vals by blast
  show "sent (snd (get_simple_price e symbols vs ttl s)) = sent s @ replicate 3 (price_request symbols vs)"
    using gsp_all_fail(2) h by blast
  show "slept (snd (get_simple_price e symbols vs ttl s)) = slept s @ [8 / 10 * 1, 8 / 10 * 2]"
    using gsp_all_fail(3) h by blast
qed

theorem failed_fetch_retries_then_none_witness:
  "fst (get_simple_price provider_down (SymbolList [''BTC'']) ''usd'' 30 fresh_state) = Inr [(''BTC'', JNull)] \<and>
   length (sent (snd (get_simple_price provider_down (SymbolList [''BTC'']) ''usd'' 30 fresh_state))) = 3 \<and>
   slept (snd (get_simple_price provider_down (SymbolList [''BTC'']) ''usd'' 30 fresh_state)) = [8 / 10, 16 / 10] \<and>
   length (sent (snd (request provider_down ''/simple/price'' [] 2 (8 / 10) fresh_state))) = 3"
proof -
  have h1: "\<not> entry_valid provider_down fresh_state (price_cache_key (SymbolList [''BTC'']) ''usd'') 30"
    by (simp add: entry_valid_def fresh_state_def)
  have h2: "requested_ids (SymbolList [''BTC'']) \<noteq> []" by (simp add: btc_call_parts)
  have h3: "\<forall>i < 3. \<exists>m. net provider_down (length (sent fresh_state) + i) = Failure m"
    by (simp add: provider_down_def)
  have h4: "(0::int) \<le> 2 \<and> (0::real) \<le> 8 / 10" by simp
  have h5: "\<forall>i < nat (2 + 1). \<exists>m. net provider_down (length (sent fresh_state) + i) = Failure m"
    by (simp add: provider_down_def)
  from failed_fetch_retries_then_none[of 2 "8 / 10" provider_down fresh_state "''/simple/price''" "[]"
      "SymbolList [''BTC'']" "''usd''" 30]
    h1 h2 h3 h4 h5
  show ?thesis
    by (auto simp: btc_call_parts fresh_state_def)
qed

subsection \<open>The keys of the result of \<open>get_simple_price\<close>\<close>

text \<open>
  Claim C2.  The claim (with the docstring of \<open>get_simple_price\<close>: "Returns a dict mapping
  original symbol -> price", and the comment "map back to requested symbols") says that
  the result is keyed by the symbols as the caller passed them, one entry per requested
  symbol.  The code keys \<open>mapping\<close>, and with it the result, by \<open>sym.upper()\<close>: the call on
  \<open>["btc"]\<close> returns a dict whose only key is \<open>"BTC"\<close>, and the symbol \<open>"btc"\<close> that the
  caller passed is not a key of it; the call on \<open>["btc", "BTC"]\<close> returns one entry for the
  two requested symbols.  The other parts of the claim hold at these inputs: on
  \<open>["btc", "NOPE"]\<close> the unresolved symbol maps to \<open>None\<close> and the request names only the
  resolved identifier.
\<close>

theorem lowercase_symbol_keyed_by_uppercase:
  "fst (get_simple_price (provider_answers btc_quote) (SymbolList [''btc'']) ''usd'' 30 fresh_state) =
     Inr [(''BTC'', JNum 50000)] \<and>
   map_of [(''BTC'', JNum 50000)] ''btc'' = None \<and>
   fst (get_simple_price (provider_answers btc_quote) (SymbolList [''btc'', ''BTC'']) ''usd'' 30
          fresh_state) =
     Inr [(''BTC'', JNum 50000)] \<and>
   fst (get_simple_price (provider_answers btc_quote) (SymbolList [''btc'', ''NOPE'']) ''usd'' 30
          fresh_state) =
     Inr [(''BTC'', JNum 50000), (''NOPE'', JNull)] \<and>
   sent (snd (get_simple_price (provider_answers btc_quote) (SymbolList [''btc'', ''NOPE'']) ''usd'' 30
          fresh_state)) =
     [\<lparr>req_url = ''https://api.coingecko.com/api/v3/simple/price'',
       req_params = [(''ids'', JStr ''bitcoin''), (''vs_currencies'', JStr ''usd'')]\<rparr>]"
proof -
  let ?e = "provider_answers btc_quote"
  have ok: "request_failed btc_quote = Inr False"
    by (simp add: request_failed_def btc_quote_def)
  have net: "net ?e (length (sent fresh_state)) = Response btc_quote"
    by (simp add: world_defs)
  have miss: "\<not> entry_valid ?e fresh_state key 30" for key
    by (simp add: entry_valid_def fresh_state_def)
  have fetch: "requested_ids symbols \<noteq> [] \<Longrightarrow>
      fst (get_simple_price ?e symbols ''usd'' 30 fresh_state) =
        project_loop (requested_map symbols) btc_quote ''usd'' [] \<and>
      sent (snd (get_simple_price ?e symbols ''usd'' 30 fresh_state)) =
        [price_request symbols ''usd'']" for symbols
  proof -
    assume ids: "requested_ids symbols \<noteq> []"
    have e: "sent fresh_state = []" by (simp add: fresh_state_def)
    from get_simple_price_first_response
           [of ?e fresh_state symbols "''usd''" 30 btc_quote, OF miss ids net ok]
    show ?thesis by (auto simp: e)
  qed
  have i1: "requested_ids (SymbolList [''btc'']) \<noteq> []" by code_simp
  have i2: "requested_ids (SymbolList [''btc'', ''BTC'']) \<noteq> []" by code_simp
  have i3: "requested_ids (SymbolList [''btc'', ''NOPE'']) = [''bitcoin'']" by code_simp
  have p1: "project_loop (requested_map (SymbolList [''btc''])) btc_quote ''usd'' [] =
      Inr [(''BTC'', JNum 50000)]"
    by code_simp
  have p2: "project_loop (requested_map (SymbolList [''btc'', ''BTC''])) btc_quote ''usd'' [] =
      Inr [(''BTC'', JNum 50000)]"
    by code_simp
  have p3: "project_loop (requested_map (SymbolList [''btc'', ''NOPE''])) btc_quote ''usd'' [] =
      Inr [(''BTC'', JNum 50000), (''NOPE'', JNull)]"
    by code_simp
  have rq: "price_request (SymbolList [''btc'', ''NOPE'']) ''usd'' =
      \<lparr>req_url = ''https://api.coingecko.com/api/v3/simple/price'',
       req_params = [(''ids'', JStr ''bitcoin''), (''vs_currencies'', JStr ''usd'')]\<rparr>"
    by (simp add: price_request_def i3 simple_price_params_def COINGECKO_BASE_def)
  have 1: "fst (get_simple_price ?e (SymbolList [''btc'']) ''usd'' 30 fresh_state) =
      Inr [(''BTC'', JNum 50000)]"
    using fetch[OF i1] by (simp add: p1)
  have 2: "fst (get_simple_price ?e (SymbolList [''btc'', ''BTC'']) ''usd'' 30 fresh_state) =
      Inr [(''BTC'', JNum 50000)]"
    using fetch[OF i2] by (simp add: p2)
  have 3: "fst (get_simple_price ?e (SymbolList [''btc'', ''NOPE'']) ''usd'' 30 fresh_state) =
      Inr [(''BTC'', JNum 50000), (''NOPE'', JNull)]"
    using fetch[of "SymbolList [''btc'', ''NOPE'']"] by (simp add: p3 i3)
  have 4: "sent (snd (get_simple_price ?e (SymbolList [''btc'', ''NOPE'']) ''usd'' 30 fresh_state)) =
      [\<lparr>req_url = ''https://api.coingecko.com/api/v3/simple/price'',
        req_params = [(''ids'', JStr ''bitcoin''), (''vs_currencies'', JStr ''usd'')]\<rparr>]"
    using fetch[of "SymbolList [''btc'', ''NOPE'']"] by (simp add: rq i3)
  have 5: "map_of [(''BTC'', JNum 50000)] ''btc'' = None" by simp
  from 1 5 2 3 4 show ?thesis by (intro conjI)
qed

subsection \<open>Validity of a cache entry\<close>

text \<open>
  Claim C3.  A cache entry stored at time \<open>T\<close>, read with time-to-live \<open>D\<close> at time \<open>now\<close>,
  is valid if and only if \<open>now - T \<le> D\<close>: when \<open>now - T \<le> D\<close> the read returns the stored
  data and leaves the cache as it is; when \<open>now - T > D\<close> the read returns \<open>None\<close> and removes
  the entry, and a call of \<open>get_simple_price\<close> under that key (with at least one resolved
  identifier) goes on to send a request.
\<close>

theorem cache_entry_valid_iff_within_ttl:
  assumes "cache s key = Some (T, d)"
  shows "(clock e (ticks s) - T \<le> real_of_int D \<longrightarrow>
            cache_get e key D s = (d, s\<lparr>ticks := Suc (ticks s)\<rparr>)) \<and>
         (clock e (ticks s) - T > real_of_int D \<longrightarrow>
            cache_get e key D s =
              (JNull, s\<lparr>cache := (cache s)(key := None), ticks := Suc (ticks s)\<rparr>) \<and>
            (\<forall>symbols vs. key = price_cache_key symbols vs \<and> requested_ids symbols \<noteq> [] \<longrightarrow>
               (\<exists>rest. sent (snd (get_simple_price e symbols vs D s)) =
                         sent s @ price_request symbols vs # rest)))"
proof (intro conjI impI allI)
  assume "clock e (ticks s) - T \<le> real_of_int D"
  with assms show "cache_get e key D s = (d, s\<lparr>ticks := Suc (ticks s)\<rparr>)"
    by (rule cache_get_valid)
next
  assume "clock e (ticks s) - T > real_of_int D"
  with assms show "cache_get e key D s =
      (JNull, s\<lparr>cache := (cache s)(key := None), ticks := Suc (ticks s)\<rparr>)"
    by (rule cache_get_expired)
next
  fix symbols vs
  assume x: "clock e (ticks s) - T > real_of_int D"
    and k: "key = price_cache_key symbols vs \<and> requested_ids symbols \<noteq> []"
  from k assms have "cache s (price_cache_key symbols vs) = Some (T, d)" by simp
  from get_simple_price_expired_fetches[OF this x] k
  show "\<exists>rest. sent (snd (get_simple_price e symbols vs D s)) =
                         sent s @ price_request symbols vs # rest" by blast
qed

theorem cache_entry_valid_iff_within_ttl_witness:
  "cache_get provider_down ''simple_price:bitcoin:usd'' 30
       (state_with_entry ''simple_price:bitcoin:usd'' 970 btc_quote) =
     (btc_quote, (state_with_entry ''simple_price:bitcoin:usd'' 970 btc_quote)\<lparr>ticks := 1\<rparr>) \<and>
   fst (cache_get provider_down ''simple_price:bitcoin:usd'' 30
       (state_with_entry ''simple_price:bitcoin:usd'' (9699 / 10) btc_quote)) = JNull \<and>
   cache (snd (cache_get provider_down ''simple_price:bitcoin:usd'' 30
       (state_with_entry ''simple_price:bitcoin:usd'' (9699 / 10) btc_quote)))
     ''simple_price:bitcoin:usd'' = None \<and>
   0 < length (sent (snd (get_simple_price provider_down (SymbolList [''BTC'']) ''usd'' 30
       (state_with_entry ''simple_price:bitcoin:usd'' (9699 / 10) btc_quote))))"
proof -
  let ?k = "''simple_price:bitcoin:usd''"
  let ?a = "state_with_entry ?k 970 btc_quote"
  let ?b = "state_with_entry ?k (9699 / 10) btc_quote"
  have a: "cache ?a ?k = Some (970, btc_quote)"
    by (simp add: state_with_entry_def)
  have b: "cache ?b ?k = Some (9699 / 10, btc_quote)"
    by (simp add: state_with_entry_def)
  have ta: "clock provider_down (ticks ?a) - 970 \<le> real_of_int 30"
    by (simp add: world_defs state_with_entry_def)
  have tb: "clock provider_down (ticks ?b) - 9699 / 10 > real_of_int 30"
    by (simp add: world_defs state_with_entry_def)
  have k: "?k = price_cache_key (SymbolList [''BTC'']) ''usd'' \<and>
           requested_ids (SymbolList [''BTC'']) \<noteq> []"
    by (simp add: btc_call_parts)
  have tk: "ticks ?a = 0"
    by (simp add: state_with_entry_def fresh_state_def)
  from cache_entry_valid_iff_within_ttl[OF a, of provider_down 30] ta
  have 1: "cache_get provider_down ?k 30 ?a = (btc_quote, ?a\<lparr>ticks := Suc (ticks ?a)\<rparr>)"
    by (rule conjunct1 [THEN mp])
  note x = cache_entry_valid_iff_within_ttl[OF b, of provider_down 30, THEN conjunct2, THEN mp, OF tb]
  from x have 2: "cache_get provider_down ?k 30 ?b =
      (JNull, ?b\<lparr>cache := (cache ?b)(?k := None), ticks := Suc (ticks ?b)\<rparr>)"
    by (rule conjunct1)
  from x[THEN conjunct2, THEN spec, THEN spec, THEN mp, OF k]
  have 3: "0 < length (sent (snd (get_simple_price provider_down (SymbolList [''BTC'']) ''usd'' 30 ?b)))"
    by auto
  have 4: "fst (cache_get provider_down ?k 30 ?b) = JNull"
    by (simp only: 2 fst_conv)
  have 5: "cache (snd (cache_get provider_down ?k 30 ?b)) ?k = None"
    by (simp add: 2)
  have 6: "cache_get provider_down ?k 30 ?a = (btc_quote, ?a\<lparr>ticks := 1\<rparr>)"
    by (simp add: 1 tk)
  show ?thesis using 6 4 5 3 by (intro conjI)
qed

subsection \<open>Serving from the cache\<close>

text \<open>
  Claim C4.  In a state where every stored value is truthy (an invariant of the module),
  whenever the cache holds a valid entry for the key that \<open>get_simple_price\<close> computes, the
  call returns the projection of the cached data and sends no HTTP request; it leaves the
  cache as it is and keeps the invariant.  In particular, a call that misses the cache and
  whose first request succeeds, followed immediately (the next clock reading is within the
  ttl of the previous one) by an identical call, sends exactly one request in total: the
  second call sends none and is served from the body the first one stored.
\<close>

theorem valid_entry_served_without_request:
  "(stored_truthy s \<and> cache s (price_cache_key symbols vs) = Some (T, d) \<and>
    clock e (ticks s) - T \<le> real_of_int ttl \<longrightarrow>
      get_simple_price e symbols vs ttl s =
        (serve_cached (requested_map symbols) d vs, s\<lparr>ticks := Suc (ticks s)\<rparr>)) \<and>
   (stored_truthy s \<longrightarrow> stored_truthy (snd (get_simple_price e symbols vs ttl s))) \<and>
   (\<not> entry_valid e s (price_cache_key symbols vs) ttl \<and> requested_ids symbols \<noteq> [] \<and>
    net e (length (sent s)) = Response body \<and> request_failed body = Inr False \<and>
    (\<forall>n. clock e (Suc n) - clock e n \<le> real_of_int ttl) \<longrightarrow>
      sent (snd (get_simple_price e symbols vs ttl s)) = sent s @ [price_request symbols vs] \<and>
      sent (snd (get_simple_price e symbols vs ttl (snd (get_simple_price e symbols vs ttl s)))) =
        sent s @ [price_request symbols vs] \<and>
      fst (get_simple_price e symbols vs ttl (snd (get_simple_price e symbols vs ttl s))) =
        serve_cached (requested_map symbols) body vs)"
proof (intro conjI impI)
  assume h: "stored_truthy s \<and> cache s (price_cache_key symbols vs) = Some (T, d) \<and>
    clock e (ticks s) - T \<le> real_of_int ttl"
  then have "truthy d" by (auto simp: stored_truthy_def)
  then have "d \<noteq> JNull" by (rule truthy_not_null)
  with h show "get_simple_price e symbols vs ttl s =
        (serve_cached (requested_map symbols) d vs, s\<lparr>ticks := Suc (ticks s)\<rparr>)"
    by (simp add: get_simple_price_hit)
next
  assume "stored_truthy s"
  then show "stored_truthy (snd (get_simple_price e symbols vs ttl s))"
    by (rule stored_truthy_get_simple_price)
next
  assume h: "\<not> entry_valid e s (price_cache_key symbols vs) ttl \<and> requested_ids symbols \<noteq> [] \<and>
    net e (length (sent s)) = Response body \<and> request_failed body = Inr False \<and>
    (\<forall>n. clock e (Suc n) - clock e n \<le> real_of_int ttl)"
  let ?key = "price_cache_key symbols vs"
  from get_simple_price_first_response[of e s symbols vs ttl body] h
  obtain s1 where s1: "sent s1 = sent s"
    and g1: "get_simple_price e symbols vs ttl s =
             (project_loop (requested_map symbols) body vs [],
              s1\<lparr>sent := sent s @ [price_request symbols vs],
                 ticks := Suc (ticks s1),
                 cache := (cache s1)(?key \<mapsto> (clock e (ticks s1), body))\<rparr>)"
    by blast
  let ?s' = "s1\<lparr>sent := sent s @ [price_request symbols vs],
                 ticks := Suc (ticks s1),
                 cache := (cache s1)(?key \<mapsto> (clock e (ticks s1), body))\<rparr>"
  have e1: "cache ?s' ?key = Some (clock e (ticks s1), body)" by simp
  have e2: "clock e (ticks ?s') - clock e (ticks s1) \<le> real_of_int ttl" using h by simp
  have e3: "body \<noteq> JNull"
    using h request_failed_False_truthy truthy_not_null by blast
  note g2 = get_simple_price_hit[OF e1 e2 e3]
  show "sent (snd (get_simple_price e symbols vs ttl s)) = sent s @ [price_request symbols vs]"
    by (simp add: g1)
  show "sent (snd (get_simple_price e symbols vs ttl (snd (get_simple_price e symbols vs ttl s)))) =
        sent s @ [price_request symbols vs]"
    by (simp add: g1 g2)
  show "fst (get_simple_price e symbols vs ttl (snd (get_simple_price e symbols vs ttl s))) =
        serve_cached (requested_map symbols) body vs"
    by (simp add: g1 g2)
qed

theorem valid_entry_served_without_request_witness:
  "get_simple_price (provider_answers btc_quote) (SymbolList [''BTC'']) ''usd'' 30
       (state_with_entry ''simple_price:bitcoin:usd'' 980 btc_quote) =
     (Inr [(''BTC'', JNum 50000)],
      (state_with_entry ''simple_price:bitcoin:usd'' 980 btc_quote)\<lparr>ticks := 1\<rparr>) \<and>
   stored_truthy (snd (get_simple_price (provider_answers btc_quote) (SymbolList [''BTC'']) ''usd'' 30 fresh_state)) \<and>
   length (sent (snd (get_simple_price (provider_answers btc_quote) (SymbolList [''BTC'']) ''usd'' 30
      (snd (get_simple_price (provider_answers btc_quote) (SymbolList [''BTC'']) ''usd'' 30 fresh_state))))) = 1 \<and>
   fst (get_simple_price (provider_answers btc_quote) (SymbolList [''BTC'']) ''usd'' 30
      (snd (get_simple_price (provider_answers btc_quote) (SymbolList [''BTC'']) ''usd'' 30 fresh_state))) =
     Inr [(''BTC'', JNum 50000)]"
proof -
  let ?e = "provider_answers btc_quote"
  let ?sy = "SymbolList [''BTC'']"
  let ?k = "''simple_price:bitcoin:usd''"
  let ?a = "state_with_entry ?k 980 btc_quote"
  have key: "price_cache_key ?sy ''usd'' = ?k" by (simp add: btc_call_parts)
  have srv: "serve_cached (requested_map ?sy) btc_quote ''usd'' = Inr [(''BTC'', JNum 50000)]"
    by code_simp
  have a1: "stored_truthy ?a"
    by (simp add: stored_truthy_def state_with_entry_def btc_quote_def)
  have a2: "cache ?a (price_cache_key ?sy ''usd'') = Some (980, btc_quote)"
    by (simp add: key state_with_entry_def)
  have a3: "clock ?e (ticks ?a) - 980 \<le> real_of_int 30"
    by (simp add: world_defs state_with_entry_def)
  have tk: "ticks ?a = 0" by (simp add: state_with_entry_def fresh_state_def)
  have b1: "stored_truthy fresh_state" by (simp add: stored_truthy_def fresh_state_def)
  have c1: "\<not> entry_valid ?e fresh_state (price_cache_key ?sy ''usd'') 30"
    by (simp add: entry_valid_def fresh_state_def)
  have c2: "requested_ids ?sy \<noteq> []" by (simp add: btc_call_parts)
  have c3: "net ?e (length (sent fresh_state)) = Response btc_quote"
    by (simp add: world_defs)
  have c4: "request_failed btc_quote = Inr False"
    by (simp add: request_failed_def btc_quote_def)
  have c5: "\<forall>n. clock ?e (Suc n) - clock ?e n \<le> real_of_int 30"
    by (simp add: world_defs)
  note t1 = valid_entry_served_without_request[of ?a ?sy "''usd''" 980 btc_quote ?e 30]
  note t2 = valid_entry_served_without_request[of fresh_state ?sy "''usd''" _ _ ?e 30 btc_quote]
  from t1 a1 a2 a3 have r1: "get_simple_price ?e ?sy ''usd'' 30 ?a =
      (serve_cached (requested_map ?sy) btc_quote ''usd'', ?a\<lparr>ticks := Suc (ticks ?a)\<rparr>)"
    by blast
  from t2 b1 have r2: "stored_truthy (snd (get_simple_price ?e ?sy ''usd'' 30 fresh_state))"
    by blast
  from t2 c1 c2 c3 c4 c5
  have r3: "sent (snd (get_simple_price ?e ?sy ''usd'' 30 (snd (get_simple_price ?e ?sy ''usd'' 30 fresh_state)))) =
        sent fresh_state @ [price_request ?sy ''usd'']"
    and r4: "fst (get_simple_price ?e ?sy ''usd'' 30 (snd (get_simple_price ?e ?sy ''usd'' 30 fresh_state))) =
        serve_cached (requested_map ?sy) btc_quote ''usd''"
    by blast+
  have r3': "length (sent (snd (get_simple_price ?e ?sy ''usd'' 30 (snd (get_simple_price ?e ?sy ''usd'' 30 fresh_state))))) = 1"
  proof -
    have "sent fresh_state = []" by (simp add: fresh_state_def)
    then show ?thesis by (simp only: r3 append_Nil list.size One_nat_def add_0)
  qed
  show ?thesis
    using r1 r2 r3' r4 by (simp add: srv tk)
qed

subsection \<open>Exceptions\<close>




subsection \<open>The cache key of \<open>get_simple_price\<close>\<close>

text \<open>
  Claim C7, as amended.  The cache key is a function of the sorted list of the resolved
  identifiers, duplicates kept, and of the quote currency: two symbol lists whose lists of
  resolved identifiers are permutations of each other compute the same key for the same
  quote currency; so do, in particular, two symbol lists that are permutations of each
  other.
\<close>

theorem cache_key_permutation_invariant:
  "(mset (requested_ids a) = mset (requested_ids b) \<longrightarrow>
      price_cache_key a vs = price_cache_key b vs) \<and>
   (mset (symbols_list_of a) = mset (symbols_list_of b) \<longrightarrow>
      price_cache_key a vs = price_cache_key b vs)"
proof (intro conjI impI)
  assume "mset (requested_ids a) = mset (requested_ids b)"
  then have "sort (requested_ids a) = sort (requested_ids b)" by (rule sort_cong_mset)
  then show "price_cache_key a vs = price_cache_key b vs"
    unfolding price_cache_key_def simple_price_key_def by (rule arg_cong)
next
  assume "mset (symbols_list_of a) = mset (symbols_list_of b)"
  then have "mset (requested_ids a) = mset (requested_ids b)"
    unfolding requested_ids_eq mset_concat_map by (rule arg_cong)
  then have "sort (requested_ids a) = sort (requested_ids b)" by (rule sort_cong_mset)
  then show "price_cache_key a vs = price_cache_key b vs"
    unfolding price_cache_key_def simple_price_key_def by (rule arg_cong)
qed

theorem cache_key_permutation_invariant_witness:
  "price_cache_key (SymbolList [''BTC'', ''ETH'']) ''usd'' =
     price_cache_key (SymbolList [''ethereum'', ''btc'']) ''usd'' \<and>
   price_cache_key (SymbolList [''BTC'', ''ETH'']) ''usd'' =
     price_cache_key (SymbolList [''ETH'', ''BTC'']) ''usd''"
proof -
  have 1: "mset (requested_ids (SymbolList [''BTC'', ''ETH''])) =
           mset (requested_ids (SymbolList [''ethereum'', ''btc'']))"
    by code_simp
  have 2: "mset (symbols_list_of (SymbolList [''BTC'', ''ETH''])) =
           mset (symbols_list_of (SymbolList [''ETH'', ''BTC'']))"
    by (simp add: symbols_list_of_def)
  from cache_key_permutation_invariant
         [of "SymbolList [''BTC'', ''ETH'']" "SymbolList [''ethereum'', ''btc'']" "''usd''"] 1
  have 3: "price_cache_key (SymbolList [''BTC'', ''ETH'']) ''usd'' =
     price_cache_key (SymbolList [''ethereum'', ''btc'']) ''usd''"
    by (rule conjunct1 [THEN mp])
  from cache_key_permutation_invariant
         [of "SymbolList [''BTC'', ''ETH'']" "SymbolList [''ETH'', ''BTC'']" "''usd''"] 2
  have 4: "price_cache_key (SymbolList [''BTC'', ''ETH'']) ''usd'' =
     price_cache_key (SymbolList [''ETH'', ''BTC'']) ''usd''"
    by (rule conjunct2 [THEN mp])
  from 3 4 show ?thesis by (rule conjI)
qed

text \<open>
  The claim as stated fails: \<open>["BTC"]\<close> and \<open>["BTC", "bitcoin"]\<close> resolve to the same set
  of identifiers, and their keys differ, because \<open>ids\<close> keeps the duplicate.
\<close>

theorem cache_key_same_set_counterexample:
  "set (requested_ids (SymbolList [''BTC''])) =
     set (requested_ids (SymbolList [''BTC'', ''bitcoin''])) \<and>
   price_cache_key (SymbolList [''BTC'']) ''usd'' = ''simple_price:bitcoin:usd'' \<and>
   price_cache_key (SymbolList [''BTC'', ''bitcoin'']) ''usd'' = ''simple_price:bitcoin,bitcoin:usd'' \<and>
   price_cache_key (SymbolList [''BTC'']) ''usd'' \<noteq>
     price_cache_key (SymbolList [''BTC'', ''bitcoin'']) ''usd''"
  by code_simp

subsection \<open>The description and the links of \<open>get_coin_info\<close> are bounded\<close>

text \<open>
  Claim C8.  Whatever the provider answers, a record that \<open>get_coin_info\<close> returns (a
  result that is not an error marker) has a description of length at most 800 and a
  homepage list of length at most 3; this holds of the records the call stores, so it
  holds of the records it later serves from the cache.  For a body of the documented
  shape the description is the first 800 characters of the provider's text and the
  homepage list the first 3 of the provider's links.
\<close>

theorem coin_info_description_and_links_bounded:
  "(coin_info_cache_bounded s \<and> fst (get_coin_info e symbol ttl s) = Inr r \<longrightarrow>
      (is_error_marker r \<or> bounded_info r) \<and>
      coin_info_cache_bounded (snd (get_coin_info e symbol ttl s))) \<and>
   (symbol_to_id symbol = Some coin_id \<and> cache s (coin_info_key coin_id) = None \<and>
    net e (length (sent s)) = Response (JObj kvs) \<and> ''error'' \<notin> set (map fst kvs) \<and>
    map_of kvs ''description'' = Some (JObj dk) \<and> dk \<noteq> [] \<and>
    map_of dk ''en'' = Some (JStr en) \<and>
    map_of kvs ''links'' = Some (JObj lk) \<and> lk \<noteq> [] \<and>
    map_of lk ''homepage'' = Some (JList urls) \<longrightarrow>
      fst (get_coin_info e symbol ttl s) =
        Inr (JObj [(''id'', case map_of kvs ''id'' of None \<Rightarrow> JNull | Some v \<Rightarrow> v),
                   (''symbol'', case map_of kvs ''symbol'' of None \<Rightarrow> JNull | Some v \<Rightarrow> v),
                   (''name'', case map_of kvs ''name'' of None \<Rightarrow> JNull | Some v \<Rightarrow> v),
                   (''description'', JStr (take 800 en)),
                   (''homepage'', JList (take 3 urls))]))"
proof (intro conjI impI)
  assume h: "coin_info_cache_bounded s \<and> fst (get_coin_info e symbol ttl s) = Inr r"
  from get_coin_info_result[of e symbol ttl s r] h
  show "is_error_marker r \<or> bounded_info r"
    by (auto simp: coin_info_cache_bounded_def coin_info_record_bounded)
  from h show "coin_info_cache_bounded (snd (get_coin_info e symbol ttl s))"
    by (simp add: coin_info_cache_bounded_get_coin_info)
next
  assume h: "symbol_to_id symbol = Some coin_id \<and> cache s (coin_info_key coin_id) = None \<and>
    net e (length (sent s)) = Response (JObj kvs) \<and> ''error'' \<notin> set (map fst kvs) \<and>
    map_of kvs ''description'' = Some (JObj dk) \<and> dk \<noteq> [] \<and>
    map_of dk ''en'' = Some (JStr en) \<and>
    map_of kvs ''links'' = Some (JObj lk) \<and> lk \<noteq> [] \<and>
    map_of lk ''homepage'' = Some (JList urls)"
  then have "kvs \<noteq> []" by auto
  with h have ok: "request_failed (JObj kvs) = Inr False"
    by (simp add: request_failed_def)
  have rec: "coin_info_record (JObj kvs) =
     Inr (JObj [(''id'', case map_of kvs ''id'' of None \<Rightarrow> JNull | Some v \<Rightarrow> v),
                (''symbol'', case map_of kvs ''symbol'' of None \<Rightarrow> JNull | Some v \<Rightarrow> v),
                (''name'', case map_of kvs ''name'' of None \<Rightarrow> JNull | Some v \<Rightarrow> v),
                (''description'', JStr (take 800 en)),
                (''homepage'', JList (take 3 urls))])"
    using h coin_info_record_documented[of kvs dk en lk urls] by blast
  from get_coin_info_fetch[of symbol coin_id s e "JObj kvs" _ ttl] h ok rec show "fst (get_coin_info e symbol ttl s) =
        Inr (JObj [(''id'', case map_of kvs ''id'' of None \<Rightarrow> JNull | Some v \<Rightarrow> v),
                   (''symbol'', case map_of kvs ''symbol'' of None \<Rightarrow> JNull | Some v \<Rightarrow> v),
                   (''name'', case map_of kvs ''name'' of None \<Rightarrow> JNull | Some v \<Rightarrow> v),
                   (''description'', JStr (take 800 en)),
                   (''homepage'', JList (take 3 urls))])"
    by blast
qed

theorem coin_info_description_and_links_bounded_witness:
  "fst (get_coin_info (provider_answers long_info) ''BTC'' 30 fresh_state) =
     Inr (JObj [(''id'', JStr ''bitcoin''), (''symbol'', JStr ''btc''), (''name'', JStr ''Bitcoin''),
                (''description'', JStr (replicate 800 CHR ''a'')),
                (''homepage'', JList [JStr ''u1'', JStr ''u2'', JStr ''u3''])]) \<and>
   bounded_info
     (JObj [(''id'', JStr ''bitcoin''), (''symbol'', JStr ''btc''), (''name'', JStr ''Bitcoin''),
            (''description'', JStr (replicate 800 CHR ''a'')),
            (''homepage'', JList [JStr ''u1'', JStr ''u2'', JStr ''u3''])]) \<and>
   coin_info_cache_bounded (snd (get_coin_info (provider_answers long_info) ''BTC'' 30 fresh_state))"
proof -
  let ?e = "provider_answers long_info"
  let ?dk = "[(''en'', JStr (replicate 1000 CHR ''a''))]"
  let ?urls = "[JStr ''u1'', JStr ''u2'', JStr ''u3'', JStr ''u4'', JStr ''u5'']"
  let ?lk = "[(''homepage'', JList ?urls)]"
  let ?kvs = "[(''id'', JStr ''bitcoin''), (''symbol'', JStr ''btc''), (''name'', JStr ''Bitcoin''),
               (''description'', JObj ?dk), (''links'', JObj ?lk)]"
  let ?r = "JObj [(''id'', JStr ''bitcoin''), (''symbol'', JStr ''btc''), (''name'', JStr ''Bitcoin''),
                  (''description'', JStr (replicate 800 CHR ''a'')),
                  (''homepage'', JList [JStr ''u1'', JStr ''u2'', JStr ''u3''])]"
  have li: "long_info = JObj ?kvs" by (simp add: long_info_def)
  have h1: "symbol_to_id ''BTC'' = Some ''bitcoin''" by code_simp
  have h2: "cache fresh_state (coin_info_key ''bitcoin'') = None" by (simp add: fresh_state_def)
  have h3: "net ?e (length (sent fresh_state)) = Response (JObj ?kvs)"
    by (simp add: provider_answers_def li)
  have h4: "''error'' \<notin> set (map fst ?kvs)" by simp
  have h5: "map_of ?kvs ''description'' = Some (JObj ?dk) \<and> ?dk \<noteq> [] \<and>
            map_of ?dk ''en'' = Some (JStr (replicate 1000 CHR ''a''))"
    by simp
  have h6: "map_of ?kvs ''links'' = Some (JObj ?lk) \<and> ?lk \<noteq> [] \<and>
            map_of ?lk ''homepage'' = Some (JList ?urls)"
    by simp
  have inv: "coin_info_cache_bounded fresh_state"
    by (simp add: coin_info_cache_bounded_def fresh_state_def)
  note t = coin_info_description_and_links_bounded
             [of fresh_state ?e "''BTC''" 30 ?r "''bitcoin''" ?kvs ?dk "replicate 1000 CHR ''a''"
                 ?lk ?urls]
  from t h1 h2 h3 h4 h5 h6
  have "fst (get_coin_info ?e ''BTC'' 30 fresh_state) =
        Inr (JObj [(''id'', case map_of ?kvs ''id'' of None \<Rightarrow> JNull | Some v \<Rightarrow> v),
                   (''symbol'', case map_of ?kvs ''symbol'' of None \<Rightarrow> JNull | Some v \<Rightarrow> v),
                   (''name'', case map_of ?kvs ''name'' of None \<Rightarrow> JNull | Some v \<Rightarrow> v),
                   (''description'', JStr (take 800 (replicate 1000 CHR ''a''))),
                   (''homepage'', JList (take 3 ?urls))])"
    by blast
  then have r: "fst (get_coin_info ?e ''BTC'' 30 fresh_state) = Inr ?r" by simp
  from t inv r have b: "(is_error_marker ?r \<or> bounded_info ?r) \<and>
      coin_info_cache_bounded (snd (get_coin_info ?e ''BTC'' 30 fresh_state))"
    by blast
  have "\<not> is_error_marker ?r" by (simp add: is_error_marker_def)
  with b r show ?thesis by blast
qed

subsection \<open>A failed call stores nothing\<close>




subsection \<open>A string in place of the list of symbols\<close>



end
